theory Spec2Isabelle
  imports Main
begin

section \<open>The Loader's connection to the Playground: \<open>connect-loader.js\<close>\<close>

text \<open>
  A shallow embedding of \<open>packages/react-cosmos-loader/src/connect-loader.js\<close>.
  The module keeps three module-level variables (\<open>unbindPrev\<close>, \<open>selected\<close>,
  \<open>hasFixtureUpdate\<close>); every call of \<open>connectLoader\<close> creates new closures
  (\<open>onMessage\<close>, \<open>unbind\<close>, \<open>destroy\<close>) over its arguments. The embedding passes the
  module variables, the window's listener list and a log of every outside effect as
  an explicit state. A closure is identified by the number of the \<open>connectLoader\<close>
  call that created it.

  The \<open>async\<close> functions are modelled as running to completion, as the
  specification assumes (one handler at a time); a rejected promise is the error
  value \<open>Inl\<close>, and the assignments made before the rejection stay in the state.
\<close>

subsection \<open>JavaScript values\<close>

text \<open>
  The values a fixture is made of: \<open>undefined\<close>, \<open>null\<close>, booleans, numbers, strings,
  functions (opaque, known by identity) and plain objects. An object is the list of
  its own enumerable properties in the order JavaScript enumerates them: the keys that
  are array indices first, in ascending order, then the other keys in the order they
  were created; \<open>Object.keys\<close> is \<open>map fst\<close>. A well-formed object has no key twice,
  its keys in that order, and no own property named \<open>__proto__\<close>.
\<close>

datatype jsval =
    JUndefined
  | JNull
  | JBool bool
  | JNum int
  | JStr string
  | JFun nat
  | JObj "(string \<times> jsval) list"

type_synonym jsobj = "(string \<times> jsval) list"

text \<open>
  An array index is a canonical numeric string (digits, no leading zero but in \<open>0\<close>
  itself) below \<open>2^32 - 1\<close>.
\<close>

definition digit_of :: "char \<Rightarrow> nat option" where
  "digit_of c =
     (let n = (of_char c :: nat) in if 48 \<le> n \<and> n \<le> 57 then Some (n - 48) else None)"

fun digits_value :: "nat \<Rightarrow> string \<Rightarrow> nat option" where
  "digits_value acc [] = Some acc"
| "digits_value acc (c # cs) =
     (case digit_of c of None \<Rightarrow> None | Some d \<Rightarrow> digits_value (10 * acc + d) cs)"

definition array_index :: "string \<Rightarrow> nat option" where
  "array_index s =
     (case s of
        [] \<Rightarrow> None
      | c # cs \<Rightarrow>
          if c = CHR ''0'' \<and> cs \<noteq> [] then None
          else (case digits_value 0 s of
                  None \<Rightarrow> None
                | Some n \<Rightarrow> if n < 4294967295 then Some n else None))"

text \<open>
  A property is written or defined: an existing property keeps its place; a new array
  index goes among the array indices, in order; any other new key goes last.
\<close>

fun replace :: "string \<Rightarrow> 'v \<Rightarrow> (string \<times> 'v) list \<Rightarrow> (string \<times> 'v) list" where
  "replace k v [] = []"
| "replace k v ((k', v') # ps) =
     (if k = k' then (k, v) # ps else (k', v') # replace k v ps)"

fun insert_index :: "nat \<Rightarrow> string \<Rightarrow> 'v \<Rightarrow> (string \<times> 'v) list \<Rightarrow> (string \<times> 'v) list" where
  "insert_index n k v [] = [(k, v)]"
| "insert_index n k v ((k', v') # ps) =
     (case array_index k' of
        Some m \<Rightarrow> if m < n then (k', v') # insert_index n k v ps else (k, v) # (k', v') # ps
      | None \<Rightarrow> (k, v) # (k', v') # ps)"

definition assign :: "string \<Rightarrow> 'v \<Rightarrow> (string \<times> 'v) list \<Rightarrow> (string \<times> 'v) list" where
  "assign k v ps =
     (if k \<in> fst ` set ps then replace k v ps
      else (case array_index k of
              None \<Rightarrow> ps @ [(k, v)]
            | Some n \<Rightarrow> insert_index n k v ps))"

text \<open>Object spread \<open>{...a, ...b}\<close>: the properties of each operand defined in turn.\<close>

definition spread :: "jsobj list \<Rightarrow> jsobj" where
  "spread os = foldl (\<lambda>acc ob. foldl (\<lambda>acc' (k, v). assign k v acc') acc ob) [] os"

text \<open>What \<open>&&\<close> and \<open>if\<close> take for true.\<close>

fun truthy :: "jsval \<Rightarrow> bool" where
  "truthy JUndefined = False"
| "truthy JNull = False"
| "truthy (JBool b) = b"
| "truthy (JNum n) = (n \<noteq> 0)"
| "truthy (JStr s) = (s \<noteq> [])"
| "truthy (JFun f) = True"
| "truthy (JObj ps) = True"

datatype js_error = TypeError

text \<open>
  The properties a value has beyond the own enumerable ones listed in it come from the
  built-in objects of the JavaScript environment, a parameter \<open>B\<close> of the embedding:
  \<open>object_proto\<close> is what a plain object inherits from \<open>Object.prototype\<close> (such as
  \<open>constructor\<close> and \<open>toString\<close>), \<open>member\<close> is what a value that is not a plain
  object has (such as the \<open>name\<close> of a function or the \<open>length\<close> of a string). \<open>None\<close>
  is a property that is not there. None of these properties is enumerable.
\<close>

record builtins =
  object_proto :: "string \<Rightarrow> jsval option"
  member :: "jsval \<Rightarrow> string \<Rightarrow> jsval option"

text \<open>
  The expression \<open>v[k]\<close>: a \<open>TypeError\<close> on \<open>undefined\<close> and \<open>null\<close>; on an object
  the own property, else the inherited one, else \<open>undefined\<close>.
\<close>

definition get_prop :: "builtins \<Rightarrow> jsval \<Rightarrow> string \<Rightarrow> js_error + jsval" where
  "get_prop B v k =
     (case v of
        JUndefined \<Rightarrow> Inl TypeError
      | JNull \<Rightarrow> Inl TypeError
      | JObj ps \<Rightarrow>
          Inr (case map_of ps k of
                 Some x \<Rightarrow> x
               | None \<Rightarrow> (case object_proto B k of Some x \<Rightarrow> x | None \<Rightarrow> JUndefined))
      | _ \<Rightarrow> Inr (case member B v k of Some x \<Rightarrow> x | None \<Rightarrow> JUndefined))"

subsection \<open>\<open>merge\<close> of \<open>lodash.merge\<close> on these values\<close>

text \<open>
  The functions of \<open>lodash.merge\<close> 4.6.2 that \<open>merge\<close> runs through, on plain objects,
  functions and primitive values.

  \<open>key in object\<close> and \<open>object[key]\<close> see inherited properties too.
  \<open>assignMergeValue\<close> writes a value unless it is the one already read at the key, and
  writes \<open>undefined\<close> only when the key is not in the object.
\<close>

definition key_in :: "builtins \<Rightarrow> jsobj \<Rightarrow> string \<Rightarrow> bool" where
  "key_in B object k = (map_of object k \<noteq> None \<or> object_proto B k \<noteq> None)"

definition read_key :: "builtins \<Rightarrow> jsobj \<Rightarrow> string \<Rightarrow> jsval" where
  "read_key B object k =
     (case map_of object k of
        Some x \<Rightarrow> x
      | None \<Rightarrow> (case object_proto B k of Some x \<Rightarrow> x | None \<Rightarrow> JUndefined))"

definition assignMergeValue :: "builtins \<Rightarrow> jsobj \<Rightarrow> string \<Rightarrow> jsval \<Rightarrow> jsobj" where
  "assignMergeValue B object k v =
     (if (v \<noteq> JUndefined \<and> read_key B object k \<noteq> v) \<or> (v = JUndefined \<and> \<not> key_in B object k)
      then assign k v object else object)"

text \<open>
  \<open>baseMergeDeep\<close> reads the value at the key with \<open>safeGet\<close> and chooses what the
  source's object is merged into: the value itself when it is an object, which is
  then changed in place, and nothing is written if it is an inherited one (\<open>None\<close>);
  the value itself when it is a function and the source is the first one, and the
  function stays (\<open>None\<close>); a new empty object in every other case.
\<close>

definition deep_target :: "builtins \<Rightarrow> nat \<Rightarrow> jsobj \<Rightarrow> string \<Rightarrow> jsobj option" where
  "deep_target B i object k =
     (case map_of object k of
        Some (JObj d) \<Rightarrow> Some d
      | Some (JFun g) \<Rightarrow> if i = 0 then None else Some []
      | Some v \<Rightarrow> Some []
      | None \<Rightarrow>
          (case object_proto B k of
             Some (JObj d) \<Rightarrow> None
           | Some (JFun g) \<Rightarrow> if i = 0 then None else Some []
           | _ \<Rightarrow> Some []))"

text \<open>
  \<open>baseMerge object source\<close> with the index \<open>i\<close> of the source among the sources of
  \<open>merge\<close>: the properties of the source are visited in order. A value that is not a
  plain object is written with \<open>assignMergeValue\<close>; a plain object goes through
  \<open>baseMergeDeep\<close>. \<open>safeGet\<close> reads the key \<open>__proto__\<close> as \<open>undefined\<close>, in the
  source too.
\<close>

fun baseMerge :: "builtins \<Rightarrow> nat \<Rightarrow> jsobj \<Rightarrow> jsobj \<Rightarrow> jsobj"
  and baseMergeDeep :: "builtins \<Rightarrow> nat \<Rightarrow> jsobj \<Rightarrow> string \<Rightarrow> jsobj \<Rightarrow> jsobj" where
  "baseMerge B i object [] = object"
| "baseMerge B i object ((k, srcValue) # rest) =
     baseMerge B i
       (case srcValue of
          JObj src \<Rightarrow> baseMergeDeep B i object k src
        | JFun f \<Rightarrow>
            assignMergeValue B object k (if k = ''__proto__'' then JUndefined else JFun f)
        | v \<Rightarrow> assignMergeValue B object k v)
       rest"
| "baseMergeDeep B i object k src =
     (if k = ''__proto__'' then assignMergeValue B object k JUndefined
      else (case deep_target B i object k of
              None \<Rightarrow> object
            | Some base \<Rightarrow> assign k (JObj (baseMerge B i base src)) object))"

text \<open>\<open>merge(object, ...sources)\<close>: the sources in turn, each with its index.\<close>

fun mergeFrom :: "builtins \<Rightarrow> nat \<Rightarrow> jsobj \<Rightarrow> jsobj list \<Rightarrow> jsobj" where
  "mergeFrom B i object [] = object"
| "mergeFrom B i object (source # sources) =
     mergeFrom B (Suc i) (baseMerge B i object source) sources"

definition merge :: "builtins \<Rightarrow> jsobj \<Rightarrow> jsobj list \<Rightarrow> jsobj" where
  "merge B object sources = mergeFrom B 0 object sources"

subsection \<open>Types of the module\<close>

text \<open>
  \<open>Fixtures\<close>: component name to fixture name to fixture, a fixture being an object.
  \<open>FixtureNames\<close>: component name to the list of its fixture names.
\<close>

type_synonym fixtures = "(string \<times> (string \<times> jsobj) list) list"
type_synonym fixture_names = "(string \<times> string list) list"

text \<open>
  \<open>Args\<close>. The renderer, the proxies and the error-dismissal hook are opaque and
  known by identity; the hook is optional.
\<close>

record args =
  renderer :: nat
  proxies :: "nat list"
  fixtures :: fixtures
  dismissRuntimeErrors :: "nat option"

text \<open>\<open>LoaderMessage\<close>, the \<open>data\<close> of a message event, by its \<open>type\<close> field.\<close>

datatype loader_message =
    FixtureSelect string string
  | FixtureEdit jsobj
  | OtherMessage string

text \<open>The messages posted to the parent frame.\<close>

datatype parent_message =
    LoaderReady fixture_names
  | FixtureListUpdate fixture_names
  | FixtureLoad jsobj
  | FixtureUpdate jsobj

text \<open>
  Everything the module does to the outside, in the order it does it:
  \<open>window.addEventListener\<close> and \<open>removeEventListener\<close> with the \<open>onMessage\<close> of a
  given \<open>connectLoader\<close> call, \<open>parent.postMessage\<close>, \<open>createContext\<close> followed by
  \<open>mount\<close> (with the renderer, the proxies and the fixture), \<open>console.error\<close>, and a
  call of the error-dismissal hook.
\<close>

datatype effect =
    AddListener nat
  | RemoveListener nat
  | Post parent_message
  | Mount nat "nat list" jsval
  | ConsoleError string
  | Dismiss nat

text \<open>
  The result of \<open>splitUnserializableParts\<close>, which is imported from
  \<open>react-cosmos-shared\<close> and is a parameter \<open>split\<close> of the embedding; \<open>None\<close> is
  a call that throws.
\<close>

record split_parts =
  serializable :: jsobj
  unserializable :: jsobj

type_synonym splitter = "jsval \<Rightarrow> split_parts option"

record loader_state =
  unbindPrev :: "nat option"
  selected :: "(string \<times> string) option"
  hasFixtureUpdate :: bool
  listeners :: "nat list"
  bindings :: "args list"
  effects :: "effect list"

text \<open>The state when the module has just been loaded.\<close>

definition init :: loader_state where
  "init = \<lparr>unbindPrev = None, selected = None, hasFixtureUpdate = False,
           listeners = [], bindings = [], effects = []\<rparr>"

definition emit :: "effect \<Rightarrow> loader_state \<Rightarrow> loader_state" where
  "emit e s = s\<lparr>effects := effects s @ [e]\<rparr>"

definition postMessageToParent :: "parent_message \<Rightarrow> loader_state \<Rightarrow> loader_state" where
  "postMessageToParent m s = emit (Post m) s"

subsection \<open>The functions of the module\<close>

text \<open>
  \<open>acc[next] = ...\<close> on the object being built: the key \<open>__proto__\<close> goes to the
  inherited setter and leaves the own properties as they are.
\<close>

definition set_member :: "string \<Rightarrow> 'v \<Rightarrow> (string \<times> 'v) list \<Rightarrow> (string \<times> 'v) list" where
  "set_member k v ps = (if k = ''__proto__'' then ps else assign k v ps)"

definition extractFixtureNames :: "fixtures \<Rightarrow> fixture_names" where
  "extractFixtureNames fs =
     foldl (\<lambda>acc next.
              set_member next (case map_of fs next of Some f \<Rightarrow> map fst f | None \<Rightarrow> []) acc)
       [] (map fst fs)"

definition applyFixturePart :: "builtins \<Rightarrow> splitter \<Rightarrow> jsval \<Rightarrow> jsobj \<Rightarrow> js_error + jsval" where
  "applyFixturePart B split currentFixture fixturePart =
     (case split currentFixture of
        None \<Rightarrow> Inl TypeError
      | Some p \<Rightarrow>
          Inr (JObj (merge B [] [unserializable p, spread [serializable p, fixturePart]])))"

text \<open>The registry and a component of it as values.\<close>

definition component_value :: "(string \<times> jsobj) list \<Rightarrow> jsval" where
  "component_value cf = JObj (map (\<lambda>(f, fx). (f, JObj fx)) cf)"

definition fixtures_value :: "fixtures \<Rightarrow> jsval" where
  "fixtures_value fs = JObj (map (\<lambda>(c, cf). (c, component_value cf)) fs)"

text \<open>
  The expression \<open>fixtures[component][fixture]\<close>: a \<open>TypeError\<close> when
  \<open>fixtures[component]\<close> is \<open>undefined\<close> or \<open>null\<close>. Both reads go through the
  prototype chain.
\<close>

definition fixture_at :: "builtins \<Rightarrow> fixtures \<Rightarrow> string \<Rightarrow> string \<Rightarrow> js_error + jsval" where
  "fixture_at B fs component fixture =
     (case get_prop B (fixtures_value fs) component of
        Inl e \<Rightarrow> Inl e
      | Inr v \<Rightarrow> get_prop B v fixture)"

text \<open>
  The test \<open>fixtures[component] && fixtures[component][fixture]\<close>: the second read is
  made only when the first is truthy.
\<close>

definition has_fixture :: "builtins \<Rightarrow> fixtures \<Rightarrow> string \<Rightarrow> string \<Rightarrow> bool" where
  "has_fixture B fs component fixture =
     (case get_prop B (fixtures_value fs) component of
        Inl e \<Rightarrow> False
      | Inr v \<Rightarrow>
          truthy v \<and> (case get_prop B v fixture of Inl e \<Rightarrow> False | Inr w \<Rightarrow> truthy w))"

definition loadFixture ::
  "splitter \<Rightarrow> args \<Rightarrow> jsval \<Rightarrow> bool \<Rightarrow> loader_state \<Rightarrow> (js_error + unit) \<times> loader_state" where
  "loadFixture split a fixture notifyParent s =
     (let s1 = emit (Mount (renderer a) (proxies a) fixture) s in
      if notifyParent then
        (case split fixture of
           None \<Rightarrow> (Inl TypeError, s1)
         | Some p \<Rightarrow> (Inr (), postMessageToParent (FixtureLoad (serializable p)) s1))
      else (Inr (), s1))"

definition onContextUpdate ::
  "splitter \<Rightarrow> jsval \<Rightarrow> loader_state \<Rightarrow> (js_error + unit) \<times> loader_state" where
  "onContextUpdate split fixturePart s =
     (let s1 = s\<lparr>hasFixtureUpdate := True\<rparr> in
      case split fixturePart of
        None \<Rightarrow> (Inl TypeError, s1)
      | Some p \<Rightarrow> (Inr (), postMessageToParent (FixtureUpdate (serializable p)) s1))"

definition onMessage ::
  "builtins \<Rightarrow> splitter \<Rightarrow> args \<Rightarrow> loader_message \<Rightarrow> loader_state \<Rightarrow>
     (js_error + unit) \<times> loader_state" where
  "onMessage B split a data s =
     (case data of
        FixtureSelect component fixture \<Rightarrow>
          if has_fixture B (fixtures a) component fixture then
            (let s1 = s\<lparr>selected := Some (component, fixture), hasFixtureUpdate := False\<rparr> in
             case fixture_at B (fixtures a) component fixture of
               Inl e \<Rightarrow> (Inl e, s1)
             | Inr selectedFixture \<Rightarrow>
                 (case loadFixture split a selectedFixture True s1 of
                    (Inl e, s2) \<Rightarrow> (Inl e, s2)
                  | (Inr u, s2) \<Rightarrow>
                      (Inr (),
                       case dismissRuntimeErrors a of
                         None \<Rightarrow> s2
                       | Some h \<Rightarrow> emit (Dismiss h) s2)))
          else
            (Inr (),
             emit (ConsoleError (''[Cosmos] Missing fixture for '' @ component @ '':'' @ fixture)) s)
      | FixtureEdit fixtureBody \<Rightarrow>
          (case selected s of
             None \<Rightarrow> (Inr (), emit (ConsoleError ''[Cosmos] No selected fixture to edit'') s)
           | Some (component, fixture) \<Rightarrow>
               (let s1 = s\<lparr>hasFixtureUpdate := True\<rparr> in
                case fixture_at B (fixtures a) component fixture of
                  Inl e \<Rightarrow> (Inl e, s1)
                | Inr selectedFixture \<Rightarrow>
                    (case applyFixturePart B split selectedFixture fixtureBody of
                       Inl e \<Rightarrow> (Inl e, s1)
                     | Inr edited \<Rightarrow> loadFixture split a edited False s1)))
      | OtherMessage t \<Rightarrow> (Inr (), s))"

text \<open>
  \<open>bind\<close> and \<open>unbind\<close> of the call number \<open>i\<close>. The window keeps a listener once, and
  removing one that is not registered changes nothing.
\<close>

definition bind :: "nat \<Rightarrow> loader_state \<Rightarrow> loader_state" where
  "bind i s =
     emit (AddListener i)
       (s\<lparr>listeners := (if i \<in> set (listeners s) then listeners s else listeners s @ [i])\<rparr>)"

definition unbind :: "nat \<Rightarrow> loader_state \<Rightarrow> loader_state" where
  "unbind i s =
     (emit (RemoveListener i) (s\<lparr>listeners := remove1 i (listeners s)\<rparr>))\<lparr>unbindPrev := None\<rparr>"

text \<open>
  \<open>connectLoader\<close>. The call is number \<open>length (bindings s)\<close>; its arguments are kept
  for its \<open>onMessage\<close>. The value returned is the \<open>destroy\<close> closure, given by the
  number of the call.
\<close>

definition connectLoader ::
  "builtins \<Rightarrow> splitter \<Rightarrow> args \<Rightarrow> loader_state \<Rightarrow> (js_error + nat) \<times> loader_state" where
  "connectLoader B split a s =
     (let i = length (bindings s);
          s0 = s\<lparr>bindings := bindings s @ [a]\<rparr>;
          isFirstCall = (unbindPrev s0 = None);
          s1 = (case unbindPrev s0 of None \<Rightarrow> s0 | Some j \<Rightarrow> unbind j s0);
          s2 = s1\<lparr>unbindPrev := Some i\<rparr>;
          s3 = bind i s2
      in
      if isFirstCall then
        (Inr i, postMessageToParent (LoaderReady (extractFixtureNames (fixtures a))) s3)
      else
        (let s4 = postMessageToParent (FixtureListUpdate (extractFixtureNames (fixtures a))) s3 in
         case selected s4 of
           None \<Rightarrow> (Inr i, s4)
         | Some (component, fixture) \<Rightarrow>
             if \<not> hasFixtureUpdate s4 then
               (case fixture_at B (fixtures a) component fixture of
                  Inl e \<Rightarrow> (Inl e, s4)
                | Inr fx \<Rightarrow>
                    (case loadFixture split a fx True s4 of
                       (Inl e, s5) \<Rightarrow> (Inl e, s5)
                     | (Inr u, s5) \<Rightarrow> (Inr i, s5)))
             else (Inr i, s4)))"

text \<open>
  The \<open>destroy\<close> closure returned by the call number \<open>i\<close>. Its body reads only the
  module variable \<open>unbindPrev\<close>, so the number plays no part in it.
\<close>

definition destroy :: "nat \<Rightarrow> loader_state \<Rightarrow> loader_state" where
  "destroy i s =
     (case unbindPrev s of
        None \<Rightarrow> s
      | Some j \<Rightarrow> (unbind j s)\<lparr>selected := None, hasFixtureUpdate := False\<rparr>)"

subsection \<open>Runs\<close>

text \<open>
  What can happen to the module: a call of \<open>connectLoader\<close>, a message event on the
  window (given to every registered listener in turn), a call of the \<open>onUpdate\<close>
  callback by a mounted context, a call of a \<open>destroy\<close> closure. An error ends the
  call it arises in and nothing else.
\<close>

datatype event =
    Connect args
  | Message loader_message
  | ContextUpdate jsval
  | Destroy nat

definition deliver ::
  "builtins \<Rightarrow> splitter \<Rightarrow> loader_message \<Rightarrow> loader_state \<Rightarrow> loader_state" where
  "deliver B split data s =
     foldl (\<lambda>s' i. if i < length (bindings s')
                    then snd (onMessage B split (bindings s' ! i) data s') else s')
       s (listeners s)"

fun step :: "builtins \<Rightarrow> splitter \<Rightarrow> loader_state \<Rightarrow> event \<Rightarrow> loader_state" where
  "step B split s (Connect a) = snd (connectLoader B split a s)"
| "step B split s (Message data) = deliver B split data s"
| "step B split s (ContextUpdate part) = snd (onContextUpdate split part s)"
| "step B split s (Destroy i) = destroy i s"

definition run :: "builtins \<Rightarrow> splitter \<Rightarrow> event list \<Rightarrow> loader_state \<Rightarrow> loader_state" where
  "run B split es s = foldl (step B split) s es"

text \<open>Readings of the effect log.\<close>

fun posted_of :: "effect \<Rightarrow> parent_message list" where
  "posted_of (Post m) = [m]"
| "posted_of _ = []"

fun mounted_of :: "effect \<Rightarrow> jsval list" where
  "mounted_of (Mount r p fx) = [fx]"
| "mounted_of _ = []"

fun is_listener_effect :: "effect \<Rightarrow> bool" where
  "is_listener_effect (AddListener i) = True"
| "is_listener_effect (RemoveListener i) = True"
| "is_listener_effect _ = False"

definition posted :: "effect list \<Rightarrow> parent_message list" where
  "posted es = concat (map posted_of es)"

definition mounted :: "effect list \<Rightarrow> jsval list" where
  "mounted es = concat (map mounted_of es)"

text \<open>The effects a call added to the log.\<close>

definition new_effects :: "loader_state \<Rightarrow> loader_state \<Rightarrow> effect list" where
  "new_effects s s' = drop (length (effects s)) (effects s')"

subsection \<open>Predicates used in the properties\<close>

text \<open>
  The listeners registered are exactly the \<open>onMessage\<close> of the call whose \<open>unbind\<close>
  is in \<open>unbindPrev\<close>, or none when \<open>unbindPrev\<close> is empty.
\<close>

definition single_binding :: "loader_state \<Rightarrow> bool" where
  "single_binding s =
     (listeners s = (case unbindPrev s of None \<Rightarrow> [] | Some i \<Rightarrow> [i]))"

text \<open>
  The listener calls of \<open>n\<close> calls of \<open>connectLoader\<close> in a row, starting from the
  loaded module.
\<close>

definition listener_trace :: "nat \<Rightarrow> effect list" where
  "listener_trace n =
     concat (map (\<lambda>i. (if i = 0 then [] else [RemoveListener (i - 1)]) @ [AddListener i]) [0..<n])"

text \<open>
  The active binding, when there is one, is a call of \<open>connectLoader\<close> that has been
  made.
\<close>

definition binding_known :: "loader_state \<Rightarrow> bool" where
  "binding_known s = (case unbindPrev s of None \<Rightarrow> True | Some i \<Rightarrow> i < length (bindings s))"

text \<open>
  The announcements the text of the specification expects of a run: \<open>loaderReady\<close> from
  a call of \<open>connectLoader\<close> made while no binding is active (the first one, or the
  first one after a \<open>destroy\<close>), \<open>fixtureListUpdate\<close> from every other call, each with
  the names of the registry that call was given. \<open>active\<close> says whether a binding is
  active before the events.
\<close>

fun announcements :: "bool \<Rightarrow> event list \<Rightarrow> parent_message list" where
  "announcements active [] = []"
| "announcements active (Connect a # es) =
     (if active then FixtureListUpdate (extractFixtureNames (fixtures a))
      else LoaderReady (extractFixtureNames (fixtures a))) # announcements True es"
| "announcements active (Destroy i # es) = announcements False es"
| "announcements active (Message d # es) = announcements active es"
| "announcements active (ContextUpdate p # es) = announcements active es"

fun is_announcement :: "effect \<Rightarrow> bool" where
  "is_announcement (Post (LoaderReady ns)) = True"
| "is_announcement (Post (FixtureListUpdate ns)) = True"
| "is_announcement _ = False"

text \<open>Events that neither bind nor destroy.\<close>

fun is_quiet :: "event \<Rightarrow> bool" where
  "is_quiet (Message d) = True"
| "is_quiet (ContextUpdate p) = True"
| "is_quiet _ = False"

text \<open>
  The own keys of a well-formed object: none twice, the array indices first and in
  ascending order, none named \<open>__proto__\<close>.
\<close>

definition enum_before :: "string \<Rightarrow> string \<Rightarrow> bool" where
  "enum_before k k' =
     (case array_index k' of
        None \<Rightarrow> True
      | Some n \<Rightarrow> (case array_index k of None \<Rightarrow> False | Some m \<Rightarrow> m < n))"

definition own_keys :: "string list \<Rightarrow> bool" where
  "own_keys ks = (distinct ks \<and> sorted_wrt enum_before ks \<and> ''__proto__'' \<notin> set ks)"

text \<open>
  A well-formed value whose keys, at every depth, are none of the names a plain
  object inherits.
\<close>

fun wf_val :: "builtins \<Rightarrow> jsval \<Rightarrow> bool" where
  "wf_val B (JObj ps) =
     (own_keys (map fst ps) \<and> (\<forall>k \<in> fst ` set ps. object_proto B k = None)
      \<and> (\<forall>v \<in> snd ` set ps. wf_val B v))"
| "wf_val B v = True"

definition wf_obj :: "builtins \<Rightarrow> jsobj \<Rightarrow> bool" where
  "wf_obj B ps = wf_val B (JObj ps)"

text \<open>
  What the specification says of one property of an edited fixture: a value \<open>new\<close> of
  the edit body, or of the serializable part, laid over what the unserializable part
  has at the key. \<open>undefined\<close> leaves what is there; an object is merged into an
  object that is there, and takes the place of anything else; every other value
  takes the place of what is there.
\<close>

definition laid_over :: "builtins \<Rightarrow> jsval option \<Rightarrow> jsval \<Rightarrow> jsval" where
  "laid_over B old new =
     (case new of
        JUndefined \<Rightarrow> (case old of None \<Rightarrow> JUndefined | Some u \<Rightarrow> u)
      | JObj s \<Rightarrow> JObj (baseMerge B 1 (case old of Some (JObj u) \<Rightarrow> u | _ \<Rightarrow> []) s)
      | v \<Rightarrow> v)"

text \<open>A value that is neither \<open>undefined\<close> nor an object.\<close>

fun is_atom :: "jsval \<Rightarrow> bool" where
  "is_atom JUndefined = False"
| "is_atom (JObj ps) = False"
| "is_atom v = True"

subsection \<open>Concrete inputs\<close>

text \<open>
  Built-in objects to run the module with: the members of \<open>Object.prototype\<close>, which
  are functions but for \<open>__proto__\<close>, which reads as \<open>Object.prototype\<close> itself, an
  object with no enumerable property; the \<open>name\<close> of the function \<open>Object\<close> (number
  100), and the \<open>length\<close> of a string.
\<close>

definition example_builtins :: builtins where
  "example_builtins =
     \<lparr>object_proto =
        map_of [(''constructor'', JFun 100), (''hasOwnProperty'', JFun 101),
                (''isPrototypeOf'', JFun 102), (''propertyIsEnumerable'', JFun 103),
                (''toLocaleString'', JFun 104), (''toString'', JFun 105),
                (''valueOf'', JFun 106), (''__defineGetter__'', JFun 107),
                (''__defineSetter__'', JFun 108), (''__lookupGetter__'', JFun 109),
                (''__lookupSetter__'', JFun 110), (''__proto__'', JObj [])],
      member =
        (\<lambda>v k. case v of
                 JFun g \<Rightarrow> if g = 100 \<and> k = ''name'' then Some (JStr ''Object'') else None
               | JStr s \<Rightarrow> if k = ''length'' then Some (JNum (int (length s))) else None
               | _ \<Rightarrow> None)\<rparr>"

text \<open>
  A splitter to run the module with: of the properties of an object, those holding a
  function are the unserializable part and the others the serializable part; a
  function has no enumerable property, so both its parts are empty; the splitter
  throws on anything else.
\<close>

definition example_split :: splitter where
  "example_split v =
     (case v of
        JObj ps \<Rightarrow>
          Some \<lparr>serializable = filter (\<lambda>(k, x). case x of JFun f \<Rightarrow> False | _ \<Rightarrow> True) ps,
                unserializable = filter (\<lambda>(k, x). case x of JFun f \<Rightarrow> True | _ \<Rightarrow> False) ps\<rparr>
      | JFun g \<Rightarrow> Some \<lparr>serializable = [], unserializable = []\<rparr>
      | _ \<Rightarrow> None)"

text \<open>The registry of the specification's scenario, with a function added to the fixture.\<close>

definition example_fixtures :: fixtures where
  "example_fixtures = [(''Button'', [(''default'', [(''label'', JStr ''Hi''), (''onClick'', JFun 0)])])]"

definition example_args :: args where
  "example_args =
     \<lparr>renderer = 0, proxies = [], fixtures = example_fixtures, dismissRuntimeErrors = Some 0\<rparr>"

text \<open>The same arguments after the component has gone from the registry.\<close>

definition example_gone :: args where
  "example_gone = example_args\<lparr>fixtures := []\<rparr>"

text \<open>
  The same arguments with a registry whose component \<open>Button\<close> has one fixture, named
  \<open>toString\<close>, and with a registry whose component \<open>Button\<close> has no fixture.
\<close>

definition example_named :: args where
  "example_named =
     example_args\<lparr>fixtures := [(''Button'', [(''toString'', [(''label'', JStr ''Hi'')])])]\<rparr>"

definition example_emptied :: args where
  "example_emptied = example_args\<lparr>fixtures := [(''Button'', [])]\<rparr>"

text \<open>The module after a first \<open>connectLoader\<close> and the selection of the fixture.\<close>

definition example_selected :: loader_state where
  "example_selected =
     run example_builtins example_split
       [Connect example_args, Message (FixtureSelect ''Button'' ''default'')] init"

section \<open>Properties\<close>

subsection \<open>What each function changes\<close>

lemma emit_fields [simp]:
  "unbindPrev (emit e s) = unbindPrev s"
  "selected (emit e s) = selected s"
  "hasFixtureUpdate (emit e s) = hasFixtureUpdate s"
  "listeners (emit e s) = listeners s"
  "bindings (emit e s) = bindings s"
  "effects (emit e s) = effects s @ [e]"
  by (simp_all add: emit_def)

lemma postMessageToParent_fields [simp]:
  "unbindPrev (postMessageToParent m s) = unbindPrev s"
  "selected (postMessageToParent m s) = selected s"
  "hasFixtureUpdate (postMessageToParent m s) = hasFixtureUpdate s"
  "listeners (postMessageToParent m s) = listeners s"
  "bindings (postMessageToParent m s) = bindings s"
  "effects (postMessageToParent m s) = effects s @ [Post m]"
  by (simp_all add: postMessageToParent_def)

lemma loadFixture_fields [simp]:
  "unbindPrev (snd (loadFixture split a fx n s)) = unbindPrev s"
  "selected (snd (loadFixture split a fx n s)) = selected s"
  "hasFixtureUpdate (snd (loadFixture split a fx n s)) = hasFixtureUpdate s"
  "listeners (snd (loadFixture split a fx n s)) = listeners s"
  "bindings (snd (loadFixture split a fx n s)) = bindings s"
  by (simp_all add: loadFixture_def Let_def split: option.splits)

lemma loadFixture_effects:
  "effects (snd (loadFixture split a fx n s)) =
     effects s @ Mount (renderer a) (proxies a) fx #
       (if n then (case split fx of None \<Rightarrow> [] | Some p \<Rightarrow> [Post (FixtureLoad (serializable p))])
        else [])"
  by (simp add: loadFixture_def Let_def split: option.splits)

lemma onContextUpdate_fields [simp]:
  "unbindPrev (snd (onContextUpdate split part s)) = unbindPrev s"
  "selected (snd (onContextUpdate split part s)) = selected s"
  "hasFixtureUpdate (snd (onContextUpdate split part s)) = True"
  "listeners (snd (onContextUpdate split part s)) = listeners s"
  "bindings (snd (onContextUpdate split part s)) = bindings s"
  by (simp_all add: onContextUpdate_def Let_def split: option.splits)

lemma onMessage_fields [simp]:
  "unbindPrev (snd (onMessage B split a data s)) = unbindPrev s"
  "listeners (snd (onMessage B split a data s)) = listeners s"
  "bindings (snd (onMessage B split a data s)) = bindings s"
  by (simp_all add: onMessage_def loadFixture_def Let_def
      split: loader_message.splits option.splits sum.splits prod.splits)

lemma deliver_aux_fields:
  "unbindPrev (foldl (\<lambda>s' i. if i < length (bindings s')
        then snd (onMessage B split (bindings s' ! i) data s') else s') s is) = unbindPrev s
   \<and> listeners (foldl (\<lambda>s' i. if i < length (bindings s')
        then snd (onMessage B split (bindings s' ! i) data s') else s') s is) = listeners s
   \<and> bindings (foldl (\<lambda>s' i. if i < length (bindings s')
        then snd (onMessage B split (bindings s' ! i) data s') else s') s is) = bindings s"
  by (induction "is" arbitrary: s) simp_all

lemma deliver_fields [simp]:
  "unbindPrev (deliver B split data s) = unbindPrev s"
  "listeners (deliver B split data s) = listeners s"
  "bindings (deliver B split data s) = bindings s"
  by (simp_all add: deliver_def deliver_aux_fields)

lemma bind_fields [simp]:
  "unbindPrev (bind i s) = unbindPrev s"
  "selected (bind i s) = selected s"
  "hasFixtureUpdate (bind i s) = hasFixtureUpdate s"
  "listeners (bind i s) = (if i \<in> set (listeners s) then listeners s else listeners s @ [i])"
  "bindings (bind i s) = bindings s"
  "effects (bind i s) = effects s @ [AddListener i]"
  by (simp_all add: bind_def)

lemma unbind_fields [simp]:
  "unbindPrev (unbind i s) = None"
  "selected (unbind i s) = selected s"
  "hasFixtureUpdate (unbind i s) = hasFixtureUpdate s"
  "listeners (unbind i s) = remove1 i (listeners s)"
  "bindings (unbind i s) = bindings s"
  "effects (unbind i s) = effects s @ [RemoveListener i]"
  by (simp_all add: unbind_def)

lemma connectLoader_fields [simp]:
  "unbindPrev (snd (connectLoader B split a s)) = Some (length (bindings s))"
  "selected (snd (connectLoader B split a s)) = selected s"
  "hasFixtureUpdate (snd (connectLoader B split a s)) = hasFixtureUpdate s"
  "bindings (snd (connectLoader B split a s)) = bindings s @ [a]"
  by (simp_all add: connectLoader_def loadFixture_def Let_def
      split: option.splits sum.splits prod.splits)

lemma connectLoader_listeners:
  "listeners (snd (connectLoader B split a s)) =
     (let ls = (case unbindPrev s of None \<Rightarrow> listeners s | Some j \<Rightarrow> remove1 j (listeners s))
      in if length (bindings s) \<in> set ls then ls else ls @ [length (bindings s)])"
  by (simp add: connectLoader_def loadFixture_def Let_def
      split: option.splits sum.splits prod.splits)

lemma destroy_fields [simp]:
  "unbindPrev (destroy i s) = None"
  "listeners (destroy i s) = (case unbindPrev s of None \<Rightarrow> listeners s | Some j \<Rightarrow> remove1 j (listeners s))"
  "bindings (destroy i s) = bindings s"
  by (simp_all add: destroy_def split: option.splits)

lemma single_binding_init: "single_binding init"
  by (simp add: single_binding_def init_def)

lemma single_binding_step: "single_binding s \<Longrightarrow> single_binding (step B split s e)"
  by (cases e) (auto simp: single_binding_def connectLoader_listeners split: option.splits)

lemma single_binding_run: "single_binding s \<Longrightarrow> single_binding (run B split es s)"
  unfolding run_def by (induction es arbitrary: s) (simp_all add: single_binding_step)

subsection \<open>One listener at a time\<close>

lemma connectLoader_effects:
  "effects (snd (connectLoader B split a s)) =
     effects s
     @ (case unbindPrev s of None \<Rightarrow> [] | Some j \<Rightarrow> [RemoveListener j])
     @ [AddListener (length (bindings s))]
     @ (if unbindPrev s = None
        then [Post (LoaderReady (extractFixtureNames (fixtures a)))]
        else Post (FixtureListUpdate (extractFixtureNames (fixtures a))) #
          (case selected s of
             None \<Rightarrow> []
           | Some (component, fixture) \<Rightarrow>
               if hasFixtureUpdate s then []
               else (case fixture_at B (fixtures a) component fixture of
                       Inl e \<Rightarrow> []
                     | Inr fx \<Rightarrow>
                         Mount (renderer a) (proxies a) fx #
                           (case split fx of
                              None \<Rightarrow> []
                            | Some p \<Rightarrow> [Post (FixtureLoad (serializable p))]))))"
  by (simp add: connectLoader_def loadFixture_def Let_def
      split: option.splits sum.splits prod.splits)

lemma connectLoader_listener_effects:
  "filter is_listener_effect (effects (snd (connectLoader B split a s))) =
     filter is_listener_effect (effects s)
     @ (case unbindPrev s of None \<Rightarrow> [] | Some j \<Rightarrow> [RemoveListener j])
     @ [AddListener (length (bindings s))]"
  by (simp add: connectLoader_effects split: option.splits sum.splits)

lemma run_snoc: "run B split (es @ [e]) s = step B split (run B split es s) e"
  by (simp add: run_def)

lemma run_connects:
  "unbindPrev (run B split (map Connect as) init) = (if as = [] then None else Some (length as - 1))
   \<and> length (bindings (run B split (map Connect as) init)) = length as
   \<and> filter is_listener_effect (effects (run B split (map Connect as) init)) =
       listener_trace (length as)"
proof (induction as rule: rev_induct)
  case Nil
  show ?case by (simp add: run_def init_def listener_trace_def)
next
  case (snoc a as)
  have unfold: "run B split (map Connect (as @ [a])) init =
      snd (connectLoader B split a (run B split (map Connect as) init))"
    by (simp add: run_def)
  from snoc show ?case
    unfolding unfold
    by (cases "as = []") (simp_all add: connectLoader_listener_effects listener_trace_def)
qed

text \<open>
  C1. Whatever has happened to the module since it was loaded, the window holds at most
  one of its message listeners. After a call of \<open>connectLoader\<close> it holds exactly
  one, the \<open>onMessage\<close> of that call. For \<open>N\<close> calls in a row, the listener of the
  last call is the one registered, and the calls of \<open>addEventListener\<close> and
  \<open>removeEventListener\<close> are, in order: add 0, remove 0, add 1, remove 1, ..., add
  \<open>N - 1\<close>; each call removes the listener of the call before it and then adds its own.
\<close>

theorem C1_single_listener:
  "length (listeners (run B split es init)) \<le> 1
   \<and> listeners (run B split (es @ [Connect a]) init) = [length (bindings (run B split es init))]
   \<and> listeners (run B split (map Connect as) init) = (if as = [] then [] else [length as - 1])
   \<and> filter is_listener_effect (effects (run B split (map Connect as) init)) =
       listener_trace (length as)"
proof -
  have inv: "single_binding (run B split es' init)" for es'
    by (rule single_binding_run [OF single_binding_init])
  have 1: "length (listeners (run B split es init)) \<le> 1"
    using inv [of es] by (simp add: single_binding_def split: option.splits)
  have 2: "listeners (run B split (es @ [Connect a]) init) = [length (bindings (run B split es init))]"
    using inv [of "es @ [Connect a]"] by (simp add: single_binding_def run_snoc)
  have 3: "listeners (run B split (map Connect as) init) = (if as = [] then [] else [length as - 1])"
    using inv [of "map Connect as"] run_connects [of B split as]
    by (simp add: single_binding_def)
  from 1 2 3 run_connects [of B split as] show ?thesis by simp
qed

subsection \<open>Auxiliary facts\<close>

lemma js_error_only: "(e :: js_error) = TypeError"
  by (cases e)

lemma binding_known_init: "binding_known init"
  by (simp add: binding_known_def init_def)

lemma binding_known_step: "binding_known s \<Longrightarrow> binding_known (step B split s e)"
  by (cases e) (auto simp: binding_known_def split: option.splits)

lemma binding_known_run: "binding_known s \<Longrightarrow> binding_known (run B split es s)"
  unfolding run_def by (induction es arbitrary: s) (simp_all add: binding_known_step)

lemma deliver_active:
  assumes "single_binding s" "binding_known s"
  shows "deliver B split data s =
     (case unbindPrev s of
        None \<Rightarrow> s
      | Some i \<Rightarrow> snd (onMessage B split (bindings s ! i) data s))"
  using assms by (simp add: deliver_def single_binding_def binding_known_def split: option.splits)

lemma run_Cons: "run B split (e # es) s = run B split es (step B split s e)"
  by (simp add: run_def)

lemma run_Nil: "run B split [] s = s"
  by (simp add: run_def)

lemma run_message_active:
  assumes "unbindPrev (run B split es init) = Some i"
  shows "run B split (es @ [Message data]) init =
     snd (onMessage B split (bindings (run B split es init) ! i) data (run B split es init))"
proof -
  have "single_binding (run B split es init)"
    by (rule single_binding_run [OF single_binding_init])
  moreover have "binding_known (run B split es init)"
    by (rule binding_known_run [OF binding_known_init])
  ultimately show ?thesis
    using assms by (simp add: run_snoc deliver_active)
qed

lemma map_of_component_value:
  "map_of (map (\<lambda>(f, fx). (f, JObj fx)) cf) f = map_option JObj (map_of cf f)"
  by (induction cf) auto

lemma map_of_fixtures_value:
  "map_of (map (\<lambda>(c, cf). (c, component_value cf)) fs) c = map_option component_value (map_of fs c)"
  by (induction fs) auto

lemma get_prop_registry:
  "get_prop B (fixtures_value fs) c =
     Inr (case map_of fs c of
            Some cf \<Rightarrow> component_value cf
          | None \<Rightarrow> (case object_proto B c of Some x \<Rightarrow> x | None \<Rightarrow> JUndefined))"
  by (simp add: get_prop_def fixtures_value_def map_of_fixtures_value split: option.splits)

lemma get_prop_component:
  "get_prop B (component_value cf) f =
     Inr (case map_of cf f of
            Some fx \<Rightarrow> JObj fx
          | None \<Rightarrow> (case object_proto B f of Some x \<Rightarrow> x | None \<Rightarrow> JUndefined))"
  by (simp add: get_prop_def component_value_def map_of_component_value split: option.splits)

lemma get_prop_nullish:
  "get_prop B JUndefined k = Inl TypeError" "get_prop B JNull k = Inl TypeError"
  by (simp_all add: get_prop_def)

lemma truthy_component_value [simp]: "truthy (component_value cf)"
  by (simp add: component_value_def)

lemma fixture_at_own:
  assumes "map_of fs c = Some cf" and "map_of cf f = Some fx"
  shows "fixture_at B fs c f = Inr (JObj fx)" and "has_fixture B fs c f"
  using assms
  by (simp_all add: fixture_at_def has_fixture_def get_prop_registry get_prop_component)

lemma fixture_at_no_component:
  assumes "map_of fs c = None"
  shows "fixture_at B fs c f =
     (case object_proto B c of None \<Rightarrow> Inl TypeError | Some v \<Rightarrow> get_prop B v f)"
  using assms
  by (simp add: fixture_at_def get_prop_registry get_prop_nullish split: option.splits)

lemma fixture_at_no_fixture:
  assumes "map_of fs c = Some cf" and "map_of cf f = None"
  shows "fixture_at B fs c f =
     Inr (case object_proto B f of None \<Rightarrow> JUndefined | Some v \<Rightarrow> v)"
  using assms
  by (simp add: fixture_at_def get_prop_registry get_prop_component split: option.splits)

lemma new_effects_append [simp]:
  "effects s' = effects s @ es \<Longrightarrow> new_effects s s' = es"
  by (simp add: new_effects_def)

lemma connectLoader_new_effects:
  "new_effects s (snd (connectLoader B split a s)) =
     (case unbindPrev s of None \<Rightarrow> [] | Some j \<Rightarrow> [RemoveListener j])
     @ [AddListener (length (bindings s))]
     @ (if unbindPrev s = None
        then [Post (LoaderReady (extractFixtureNames (fixtures a)))]
        else Post (FixtureListUpdate (extractFixtureNames (fixtures a))) #
          (case selected s of
             None \<Rightarrow> []
           | Some (component, fixture) \<Rightarrow>
               if hasFixtureUpdate s then []
               else (case fixture_at B (fixtures a) component fixture of
                       Inl e \<Rightarrow> []
                     | Inr fx \<Rightarrow>
                         Mount (renderer a) (proxies a) fx #
                           (case split fx of
                              None \<Rightarrow> []
                            | Some p \<Rightarrow> [Post (FixtureLoad (serializable p))]))))"
  by (rule new_effects_append) (simp add: connectLoader_effects)

lemma mounted_simps [simp]:
  "mounted [] = []"
  "mounted (Mount r p fx # es) = fx # mounted es"
  "mounted (AddListener i # es) = mounted es"
  "mounted (RemoveListener i # es) = mounted es"
  "mounted (Post m # es) = mounted es"
  "mounted (ConsoleError t # es) = mounted es"
  "mounted (Dismiss h # es) = mounted es"
  "mounted (es @ es') = mounted es @ mounted es'"
  by (simp_all add: mounted_def)

lemma posted_simps [simp]:
  "posted [] = []"
  "posted (Post m # es) = m # posted es"
  "posted (AddListener i # es) = posted es"
  "posted (RemoveListener i # es) = posted es"
  "posted (Mount r p fx # es) = posted es"
  "posted (ConsoleError t # es) = posted es"
  "posted (Dismiss h # es) = posted es"
  "posted (es @ es') = posted es @ posted es'"
  by (simp_all add: posted_def)

lemma quiet_step_fields:
  "is_quiet e \<Longrightarrow>
     unbindPrev (step B split s e) = unbindPrev s
   \<and> listeners (step B split s e) = listeners s
   \<and> bindings (step B split s e) = bindings s"
  by (cases e) simp_all

lemma quiet_run_fields:
  "\<forall>e \<in> set es. is_quiet e \<Longrightarrow>
     unbindPrev (run B split es s) = unbindPrev s
   \<and> listeners (run B split es s) = listeners s
   \<and> bindings (run B split es s) = bindings s"
  by (induction es arbitrary: s) (simp_all add: run_Nil run_Cons quiet_step_fields)

lemma destroy_active:
  "unbindPrev s = Some j \<Longrightarrow>
   destroy i s =
     s\<lparr>unbindPrev := None, selected := None, hasFixtureUpdate := False,
       listeners := remove1 j (listeners s), effects := effects s @ [RemoveListener j]\<rparr>"
  by (simp add: destroy_def unbind_def emit_def)

lemma destroy_inactive: "unbindPrev s = None \<Longrightarrow> destroy i s = s"
  by (simp add: destroy_def)

lemma onMessage_select:
  assumes "map_of (fixtures a) c = Some cf" "map_of cf f = Some fx"
  shows "onMessage B split a (FixtureSelect c f) s =
     (case split (JObj fx) of
        None \<Rightarrow>
          (Inl TypeError,
           s\<lparr>selected := Some (c, f), hasFixtureUpdate := False,
             effects := effects s @ [Mount (renderer a) (proxies a) (JObj fx)]\<rparr>)
      | Some p \<Rightarrow>
          (Inr (),
           s\<lparr>selected := Some (c, f), hasFixtureUpdate := False,
             effects := effects s @
               [Mount (renderer a) (proxies a) (JObj fx), Post (FixtureLoad (serializable p))] @
               (case dismissRuntimeErrors a of None \<Rightarrow> [] | Some h \<Rightarrow> [Dismiss h])\<rparr>))"
  using assms
  by (simp add: onMessage_def fixture_at_own loadFixture_def emit_def
      postMessageToParent_def Let_def split: option.splits)

lemma onMessage_edit_effects:
  "\<exists>ms. effects (snd (onMessage B split a (FixtureEdit body) s)) = effects s @ ms
     \<and> posted ms = []"
  by (auto simp: onMessage_def loadFixture_def Let_def split: option.splits sum.splits)

lemma onMessage_edit:
  assumes "selected s = Some (c, f)" and "map_of (fixtures a) c = Some cf"
    and "map_of cf f = Some fx" and "split (JObj fx) = Some p"
  shows "onMessage B split a (FixtureEdit body) s =
     (Inr (),
      s\<lparr>hasFixtureUpdate := True,
        effects := effects s @
          [Mount (renderer a) (proxies a)
             (JObj (merge B [] [unserializable p, spread [serializable p, body]]))]\<rparr>)"
  using assms
  by (simp add: onMessage_def fixture_at_own applyFixturePart_def loadFixture_def emit_def Let_def)

subsection \<open>Objects, spread and merge\<close>

lemma replace_map_of_if:
  "map_of (replace k v ps) = (if k \<in> fst ` set ps then (map_of ps)(k \<mapsto> v) else map_of ps)"
  by (induction k v ps rule: replace.induct) (auto simp: fun_upd_twist)

lemma replace_map_of:
  "k \<in> fst ` set ps \<Longrightarrow> map_of (replace k v ps) = (map_of ps)(k \<mapsto> v)"
  by (simp add: replace_map_of_if)

lemma replace_keys: "map fst (replace k v ps) = map fst ps"
  by (induction k v ps rule: replace.induct) auto

lemma insert_index_map_of:
  "k \<notin> fst ` set ps \<Longrightarrow> map_of (insert_index n k v ps) = (map_of ps)(k \<mapsto> v)"
  by (induction n k v ps rule: insert_index.induct)
     (auto simp: fun_upd_twist split: option.splits)

lemma insert_index_keys: "fst ` set (insert_index n k v ps) = insert k (fst ` set ps)"
  by (induction n k v ps rule: insert_index.induct) (auto split: option.splits)

lemma insert_index_distinct:
  "k \<notin> fst ` set ps \<Longrightarrow> distinct (map fst ps) \<Longrightarrow> distinct (map fst (insert_index n k v ps))"
  by (induction n k v ps rule: insert_index.induct)
     (auto simp: insert_index_keys split: option.splits)

lemma insert_index_append:
  "\<forall>k' \<in> fst ` set ps. \<exists>m. array_index k' = Some m \<and> m < n \<Longrightarrow>
   insert_index n k v ps = ps @ [(k, v)]"
  by (induction n k v ps rule: insert_index.induct) auto

lemma assign_map_of: "map_of (assign k v ps) = (map_of ps)(k \<mapsto> v)"
proof (cases "k \<in> fst ` set ps")
  case True
  then show ?thesis by (simp add: assign_def replace_map_of)
next
  case False
  then have "map_of ps k = None" by (simp add: map_of_eq_None_iff)
  with False show ?thesis
    by (auto simp: assign_def insert_index_map_of fun_eq_iff map_add_def split: option.splits)
qed

lemma assign_keys: "fst ` set (assign k v ps) = insert k (fst ` set ps)"
proof (cases "k \<in> fst ` set ps")
  case True
  have "fst ` set (replace k v ps) = set (map fst (replace k v ps))" by simp
  also have "\<dots> = fst ` set ps" by (simp add: replace_keys)
  finally show ?thesis using True by (auto simp: assign_def)
next
  case False
  then show ?thesis
    by (auto simp: assign_def insert_index_keys split: option.splits)
qed

lemma assign_distinct: "distinct (map fst ps) \<Longrightarrow> distinct (map fst (assign k v ps))"
  by (auto simp: assign_def replace_keys insert_index_distinct split: option.splits)

lemma assign_append:
  assumes "k \<notin> fst ` set ps" and "\<forall>k' \<in> fst ` set ps. enum_before k' k"
  shows "assign k v ps = ps @ [(k, v)]"
proof (cases "array_index k")
  case None
  with assms(1) show ?thesis by (simp add: assign_def)
next
  case (Some n)
  have "\<forall>k' \<in> fst ` set ps. \<exists>m. array_index k' = Some m \<and> m < n"
    using assms(2) Some by (auto simp: enum_before_def split: option.splits)
  with assms(1) Some show ?thesis
    by (simp add: assign_def insert_index_append)
qed

lemma assign_all_map_of:
  "distinct (map fst ob) \<Longrightarrow>
   map_of (foldl (\<lambda>acc' (k, v). assign k v acc') acc ob) = map_of acc ++ map_of ob"
proof (induction ob arbitrary: acc)
  case Nil
  show ?case by simp
next
  case (Cons p ob)
  obtain k v where p: "p = (k, v)" by (cases p)
  from Cons.prems p have "k \<notin> fst ` set ob" and d: "distinct (map fst ob)" by auto
  then have none: "map_of ob k = None" by (simp add: map_of_eq_None_iff)
  have swap: "(map_of acc)(k \<mapsto> v) ++ map_of ob = map_of acc ++ map_of ((k, v) # ob)"
    using none by (auto simp: map_add_def fun_eq_iff split: option.splits)
  have "map_of (foldl (\<lambda>acc' (k, v). assign k v acc') acc (p # ob)) =
      map_of (foldl (\<lambda>acc' (k, v). assign k v acc') (assign k v acc) ob)"
    by (simp add: p)
  also have "\<dots> = map_of (assign k v acc) ++ map_of ob"
    by (rule Cons.IH [OF d])
  also have "\<dots> = (map_of acc)(k \<mapsto> v) ++ map_of ob"
    by (simp only: assign_map_of)
  also have "\<dots> = map_of acc ++ map_of (p # ob)"
    unfolding p by (rule swap)
  finally show ?case .
qed

lemma assign_all_keys:
  "fst ` set (foldl (\<lambda>acc' (k, v). assign k v acc') acc ob) = fst ` set acc \<union> fst ` set ob"
proof (induction ob arbitrary: acc)
  case Nil
  show ?case by simp
next
  case (Cons p ob)
  obtain k v where p: "p = (k, v)" by (cases p)
  from Cons [of "assign k v acc"] show ?case
    by (simp add: p assign_keys)
qed

lemma assign_all_distinct:
  "distinct (map fst acc) \<Longrightarrow>
   distinct (map fst (foldl (\<lambda>acc' (k, v). assign k v acc') acc ob))"
proof (induction ob arbitrary: acc)
  case Nil
  then show ?case by simp
next
  case (Cons p ob)
  obtain k v where p: "p = (k, v)" by (cases p)
  from Cons.IH [OF assign_distinct [OF Cons.prems], of k v] show ?case
    by (simp add: p)
qed

lemma spread2:
  "spread [a, b] =
     foldl (\<lambda>acc' (k, v). assign k v acc') (foldl (\<lambda>acc' (k, v). assign k v acc') [] a) b"
  by (simp add: spread_def)

lemma spread2_map_of:
  "distinct (map fst a) \<Longrightarrow> distinct (map fst b) \<Longrightarrow>
   map_of (spread [a, b]) = map_of a ++ map_of b"
  by (simp add: spread2 assign_all_map_of)

lemma spread2_keys: "fst ` set (spread [a, b]) = fst ` set a \<union> fst ` set b"
  by (simp add: spread2 assign_all_keys)

lemma spread2_distinct: "distinct (map fst (spread [a, b]))"
  by (simp add: spread2 assign_all_distinct)

text \<open>
  What one property of the source does to the lookups of the destination, for a key
  that no plain object inherits, in a source that is not the first.
\<close>

lemma assignMergeValue_map_of:
  assumes "object_proto B k = None"
  shows "map_of (assignMergeValue B object k v) =
     (map_of object)(k \<mapsto> (case v of
        JUndefined \<Rightarrow> (case map_of object k of None \<Rightarrow> JUndefined | Some u \<Rightarrow> u)
      | _ \<Rightarrow> v))"
  using assms
  by (cases v)
     (auto simp: assignMergeValue_def read_key_def key_in_def assign_map_of fun_eq_iff
      split: option.splits)

lemma baseMergeDeep_map_of:
  assumes "object_proto B k = None" and "k \<noteq> ''__proto__''"
  shows "map_of (baseMergeDeep B 1 object k src) =
     (map_of object)(k \<mapsto> laid_over B (map_of object k) (JObj src))"
  using assms
  by (auto simp: deep_target_def laid_over_def assign_map_of
      split: option.splits jsval.splits)

lemma merge_entry_map_of:
  assumes "object_proto B k = None" and "k \<noteq> ''__proto__''"
  shows "map_of (case srcValue of
            JObj src \<Rightarrow> baseMergeDeep B 1 object k src
          | JFun f \<Rightarrow>
              assignMergeValue B object k (if k = ''__proto__'' then JUndefined else JFun f)
          | v \<Rightarrow> assignMergeValue B object k v) =
     (map_of object)(k \<mapsto> laid_over B (map_of object k) srcValue)"
proof (cases srcValue)
  case (JObj src)
  then show ?thesis
    using baseMergeDeep_map_of [OF assms] by simp
qed (simp_all add: assignMergeValue_map_of [OF assms(1)] assms(2) laid_over_def)

lemma baseMerge_map_of:
  assumes "distinct (map fst src)"
    and "\<forall>k \<in> fst ` set src. object_proto B k = None \<and> k \<noteq> ''__proto__''"
  shows "map_of (baseMerge B 1 object src) k =
     (case map_of src k of
        None \<Rightarrow> map_of object k
      | Some e \<Rightarrow> Some (laid_over B (map_of object k) e))"
  using assms
proof (induction src arbitrary: object)
  case Nil
  show ?case by simp
next
  case (Cons p src)
  obtain k' e where p: "p = (k', e)" by (cases p)
  from Cons.prems p have plain: "object_proto B k' = None" "k' \<noteq> ''__proto__''"
    and fresh: "k' \<notin> fst ` set src" and d: "distinct (map fst src)"
    and rest: "\<forall>k \<in> fst ` set src. object_proto B k = None \<and> k \<noteq> ''__proto__''"
    by auto
  from fresh have none: "map_of src k' = None" by (simp add: map_of_eq_None_iff)
  define entry where "entry =
     (case e of
        JObj src \<Rightarrow> baseMergeDeep B 1 object k' src
      | JFun f \<Rightarrow>
          assignMergeValue B object k' (if k' = ''__proto__'' then JUndefined else JFun f)
      | v \<Rightarrow> assignMergeValue B object k' v)"
  have unfold: "baseMerge B 1 object (p # src) = baseMerge B 1 entry src"
    unfolding p entry_def by (simp only: baseMerge.simps)
  have entry: "map_of entry = (map_of object)(k' \<mapsto> laid_over B (map_of object k') e)"
    unfolding entry_def by (rule merge_entry_map_of [OF plain])
  have ih: "map_of (baseMerge B 1 entry src) k =
     (case map_of src k of
        None \<Rightarrow> map_of entry k
      | Some e \<Rightarrow> Some (laid_over B (map_of entry k) e))"
    by (rule Cons.IH [OF d rest])
  have "map_of (baseMerge B 1 object (p # src)) k = map_of (baseMerge B 1 entry src) k"
    by (simp only: unfold)
  also note ih
  also have "(case map_of src k of
        None \<Rightarrow> map_of entry k
      | Some e \<Rightarrow> Some (laid_over B (map_of entry k) e)) =
     (case map_of (p # src) k of
        None \<Rightarrow> map_of object k
      | Some e \<Rightarrow> Some (laid_over B (map_of object k) e))"
    using none by (cases "k = k'") (simp_all add: p entry split: option.splits)
  finally show ?case .
qed

text \<open>
  Merging a well-formed source whose keys the destination does not have, and which
  come after the destination's in the enumeration, appends the source as it is; in
  particular merging into the empty object copies the source.
\<close>

lemma own_keys_append_Cons:
  assumes "own_keys (ks @ k # ks')"
  shows "k \<notin> set ks" and "\<forall>k' \<in> set ks. enum_before k' k" and "k \<noteq> ''__proto__''"
    and "own_keys ((ks @ [k]) @ ks')"
  using assms by (auto simp: own_keys_def sorted_wrt_append)

lemma merge_fresh:
  "(own_keys (map fst object @ map fst src)
      \<and> (\<forall>k \<in> fst ` set src. object_proto B k = None)
      \<and> (\<forall>v \<in> snd ` set src. wf_val B v) \<longrightarrow>
    baseMerge B i object src = object @ src)"
  "(k \<notin> fst ` set object \<and> (\<forall>k' \<in> fst ` set object. enum_before k' k)
      \<and> k \<noteq> ''__proto__'' \<and> object_proto B k = None \<and> wf_val B (JObj src') \<longrightarrow>
    baseMergeDeep B i object k src' = object @ [(k, JObj src')])"
proof (induction B i object src and B i object k src' rule: baseMerge_baseMergeDeep.induct)
  case (1 B i object)
  show ?case by simp
next
  case (2 B i object k srcValue rest)
  show ?case
  proof (intro impI)
    assume a: "own_keys (map fst object @ map fst ((k, srcValue) # rest))
      \<and> (\<forall>k \<in> fst ` set ((k, srcValue) # rest). object_proto B k = None)
      \<and> (\<forall>v \<in> snd ` set ((k, srcValue) # rest). wf_val B v)"
    then have ok: "own_keys (map fst object @ k # map fst rest)" by simp
    note k = own_keys_append_Cons [OF ok]
    from k(1) have fresh: "k \<notin> fst ` set object" by simp
    from k(2) have before: "\<forall>k' \<in> fst ` set object. enum_before k' k" by simp
    from a have plain: "object_proto B k = None" and wfv: "wf_val B srcValue" by auto
    from fresh have none: "map_of object k = None" by (simp add: map_of_eq_None_iff)
    have app: "assign k v object = object @ [(k, v)]" for v
      by (rule assign_append [OF fresh before])
    have entry: "(case srcValue of
          JObj src \<Rightarrow> baseMergeDeep B i object k src
        | JFun f \<Rightarrow>
            assignMergeValue B object k (if k = ''__proto__'' then JUndefined else JFun f)
        | v \<Rightarrow> assignMergeValue B object k v) = object @ [(k, srcValue)]"
    proof (cases srcValue)
      case (JObj src)
      with "2.IH"(1) [OF JObj] fresh before k(3) plain wfv show ?thesis
        by (simp del: baseMergeDeep.simps)
    qed (simp_all add: assignMergeValue_def read_key_def key_in_def none plain app k(3))
    from a k(4) have "own_keys (map fst (object @ [(k, srcValue)]) @ map fst rest)
      \<and> (\<forall>k \<in> fst ` set rest. object_proto B k = None)
      \<and> (\<forall>v \<in> snd ` set rest. wf_val B v)"
      by simp
    with "2.IH"(2) entry
    have "baseMerge B i (object @ [(k, srcValue)]) rest = (object @ [(k, srcValue)]) @ rest"
      by (simp del: baseMergeDeep.simps)
    with entry show "baseMerge B i object ((k, srcValue) # rest) = object @ (k, srcValue) # rest"
      by (simp del: baseMergeDeep.simps)
  qed
next
  case (3 B i object k src)
  show ?case
  proof (intro impI)
    assume a: "k \<notin> fst ` set object \<and> (\<forall>k' \<in> fst ` set object. enum_before k' k)
      \<and> k \<noteq> ''__proto__'' \<and> object_proto B k = None \<and> wf_val B (JObj src)"
    then have none: "map_of object k = None" by (simp add: map_of_eq_None_iff)
    from a none have target: "deep_target B i object k = Some []"
      by (simp add: deep_target_def)
    from a have "own_keys (map fst ([] :: jsobj) @ map fst src)
      \<and> (\<forall>k \<in> fst ` set src. object_proto B k = None)
      \<and> (\<forall>v \<in> snd ` set src. wf_val B v)"
      by simp
    with "3.IH" [OF _ target] a have "baseMerge B i [] src = src" by simp
    with a target show "baseMergeDeep B i object k src = object @ [(k, JObj src)]"
      by (simp add: assign_append)
  qed
qed

lemma baseMerge_copy: "wf_obj B src \<Longrightarrow> baseMerge B i [] src = src"
  using merge_fresh(1) [of "[]" src B i] by (simp add: wf_obj_def)

lemma applyFixturePart_merge:
  assumes "split fx = Some p" and "wf_obj B (unserializable p)"
  shows "applyFixturePart B split fx body =
     Inr (JObj (baseMerge B 1 (unserializable p) (spread [serializable p, body])))"
  using assms by (simp add: applyFixturePart_def merge_def baseMerge_copy)

subsection \<open>The names of a registry\<close>

lemma extractFixtureNames_aux:
  "own_keys (map fst acc @ ks) \<Longrightarrow>
   foldl (\<lambda>acc next. set_member next (g next) acc) acc ks = acc @ map (\<lambda>k. (k, g k)) ks"
proof (induction ks arbitrary: acc)
  case Nil
  show ?case by simp
next
  case (Cons k ks)
  note k = own_keys_append_Cons [OF Cons.prems]
  from k(1,2) have "assign k (g k) acc = acc @ [(k, g k)]"
    by (intro assign_append) simp_all
  with k(3) have step: "set_member k (g k) acc = acc @ [(k, g k)]"
    by (simp add: set_member_def)
  from k(4) have "own_keys (map fst (acc @ [(k, g k)]) @ ks)" by simp
  from Cons.IH [OF this] show ?case by (simp add: step)
qed

lemma extractFixtureNames_own_keys:
  assumes "own_keys (map fst fs)"
  shows "extractFixtureNames fs = map (\<lambda>(c, cf). (c, map fst cf)) fs"
proof -
  from assms have d: "distinct (map fst fs)" by (simp add: own_keys_def)
  have "extractFixtureNames fs =
      map (\<lambda>k. (k, case map_of fs k of Some f \<Rightarrow> map fst f | None \<Rightarrow> [])) (map fst fs)"
    unfolding extractFixtureNames_def
    using extractFixtureNames_aux [of "[]" "map fst fs"] assms by simp
  also have "\<dots> = map (\<lambda>(c, cf). (c, map fst cf)) fs"
    using d by (auto simp: comp_def)
  finally show ?thesis .
qed

lemma set_member_all_map_of:
  "map_of (foldl (\<lambda>acc next. set_member next (g next) acc) acc ks) c =
     (if c \<in> set ks \<and> c \<noteq> ''__proto__'' then Some (g c) else map_of acc c)"
  by (induction ks arbitrary: acc) (auto simp: set_member_def assign_map_of)

lemma extractFixtureNames_map_of:
  assumes "c \<noteq> ''__proto__''"
  shows "map_of (extractFixtureNames fs) c = map_option (map fst) (map_of fs c)"
proof (cases "map_of fs c")
  case None
  then have "c \<notin> set (map fst fs)" by (simp add: map_of_eq_None_iff)
  with None show ?thesis
    by (simp add: extractFixtureNames_def set_member_all_map_of)
next
  case (Some cf)
  then have "c \<in> set (map fst fs)" by (metis map_of_eq_None_iff option.distinct(1) set_map)
  with Some assms show ?thesis
    by (simp add: extractFixtureNames_def set_member_all_map_of)
qed

subsection \<open>Announcements along a run\<close>

lemma onMessage_announcements:
  "filter is_announcement (effects (snd (onMessage B split a data s))) =
     filter is_announcement (effects s)"
  by (simp add: onMessage_def loadFixture_def Let_def
      split: loader_message.splits option.splits sum.splits prod.splits)

lemma deliver_aux_announcements:
  "filter is_announcement (effects (foldl (\<lambda>s' i. if i < length (bindings s')
        then snd (onMessage B split (bindings s' ! i) data s') else s') s is)) =
     filter is_announcement (effects s)"
  by (induction "is" arbitrary: s) (simp_all add: onMessage_announcements)

lemma step_announcements:
  "filter is_announcement (effects (step B split s e)) =
     filter is_announcement (effects s) @ map Post (announcements (unbindPrev s \<noteq> None) [e])"
proof (cases e)
  case (Connect a)
  then show ?thesis
    by (simp add: connectLoader_effects split: option.splits sum.splits)
next
  case (Message d)
  then show ?thesis by (simp add: deliver_def deliver_aux_announcements)
next
  case (ContextUpdate p)
  then show ?thesis
    by (simp add: onContextUpdate_def Let_def split: option.splits)
next
  case (Destroy i)
  then show ?thesis by (simp add: destroy_def split: option.splits)
qed

lemma step_unbindPrev:
  "(unbindPrev (step B split s e) \<noteq> None) =
     (case e of Connect a \<Rightarrow> True | Destroy i \<Rightarrow> False | _ \<Rightarrow> unbindPrev s \<noteq> None)"
  by (cases e) simp_all

lemma run_announcements:
  "filter is_announcement (effects (run B split es s)) =
     filter is_announcement (effects s) @ map Post (announcements (unbindPrev s \<noteq> None) es)"
proof (induction es arbitrary: s)
  case Nil
  show ?case by (simp add: run_Nil)
next
  case (Cons e es)
  show ?case
    unfolding run_Cons Cons.IH step_announcements
    by (cases e) (simp_all add: step_unbindPrev)
qed

subsection \<open>Evaluating the concrete inputs\<close>

lemmas eval_simps =
  run_Cons run_Nil connectLoader_def onMessage_def deliver_def destroy_def onContextUpdate_def
  loadFixture_def bind_def unbind_def emit_def postMessageToParent_def init_def Let_def
  fixture_at_def has_fixture_def extractFixtureNames_def set_member_def assign_def array_index_def digit_of_def
  get_prop_def fixtures_value_def component_value_def example_builtins_def example_split_def example_fixtures_def
  example_args_def new_effects_def

lemma example_selected_eq:
  "example_selected =
     \<lparr>unbindPrev = Some 0, selected = Some (''Button'', ''default''), hasFixtureUpdate = False,
      listeners = [0], bindings = [example_args],
      effects = [AddListener 0, Post (LoaderReady [(''Button'', [''default''])]),
        Mount 0 [] (JObj [(''label'', JStr ''Hi''), (''onClick'', JFun 0)]),
        Post (FixtureLoad [(''label'', JStr ''Hi'')]), Dismiss 0]\<rparr>"
  by (simp add: example_selected_def eval_simps)

subsection \<open>Rebinding\<close>



subsection \<open>Selecting a fixture\<close>

text \<open>
  C3. A \<open>fixtureSelect\<close> message whose component and fixture are in the registry of
  the listening call, the splitter returning the parts \<open>p\<close> of the fixture: the
  selection becomes that pair, \<open>hasFixtureUpdate\<close> becomes false, the registry's
  fixture is mounted, then \<open>fixtureLoad\<close> is posted with the serializable part, then
  the error-dismissal hook is called if there is one; nothing else changes. The same
  holds of a message event on the window after any run that has left the binding
  \<open>i\<close> active.
\<close>

theorem C3_fixtureSelect:
  assumes "map_of (fixtures a) c = Some cf" and "map_of cf f = Some fx"
    and "split (JObj fx) = Some p"
  shows "onMessage B split a (FixtureSelect c f) s =
       (Inr (),
        s\<lparr>selected := Some (c, f), hasFixtureUpdate := False,
          effects := effects s @
            [Mount (renderer a) (proxies a) (JObj fx), Post (FixtureLoad (serializable p))] @
            (case dismissRuntimeErrors a of None \<Rightarrow> [] | Some h \<Rightarrow> [Dismiss h])\<rparr>)
     \<and> (unbindPrev (run B split es init) = Some i \<and> bindings (run B split es init) ! i = a \<longrightarrow>
          run B split (es @ [Message (FixtureSelect c f)]) init =
            (run B split es init)
              \<lparr>selected := Some (c, f), hasFixtureUpdate := False,
               effects := effects (run B split es init) @
                 [Mount (renderer a) (proxies a) (JObj fx), Post (FixtureLoad (serializable p))] @
                 (case dismissRuntimeErrors a of None \<Rightarrow> [] | Some h \<Rightarrow> [Dismiss h])\<rparr>)"
  using assms by (simp add: onMessage_select run_message_active)

text \<open>
  The selection at a concrete input: the scenario of the specification.
\<close>

theorem C3_fixtureSelect_witness:
  "map_of (fixtures example_args) ''Button'' =
      Some [(''default'', [(''label'', JStr ''Hi''), (''onClick'', JFun 0)])]
   \<and> map_of [(''default'', [(''label'', JStr ''Hi''), (''onClick'', JFun 0)])] ''default'' =
      Some [(''label'', JStr ''Hi''), (''onClick'', JFun 0)]
   \<and> example_split (JObj [(''label'', JStr ''Hi''), (''onClick'', JFun 0)]) =
      Some \<lparr>serializable = [(''label'', JStr ''Hi'')], unserializable = [(''onClick'', JFun 0)]\<rparr>
   \<and> unbindPrev (run example_builtins example_split [Connect example_args] init) = Some 0
   \<and> bindings (run example_builtins example_split [Connect example_args] init) ! 0 = example_args
   \<and> run example_builtins example_split ([Connect example_args] @ [Message (FixtureSelect ''Button'' ''default'')]) init =
      (run example_builtins example_split [Connect example_args] init)
        \<lparr>selected := Some (''Button'', ''default''), hasFixtureUpdate := False,
         effects := effects (run example_builtins example_split [Connect example_args] init) @
           [Mount 0 [] (JObj [(''label'', JStr ''Hi''), (''onClick'', JFun 0)]),
            Post (FixtureLoad [(''label'', JStr ''Hi'')]), Dismiss 0]\<rparr>"
proof -
  have h1: "map_of (fixtures example_args) ''Button'' =
      Some [(''default'', [(''label'', JStr ''Hi''), (''onClick'', JFun 0)])]"
    by (simp add: example_args_def example_fixtures_def)
  have h2: "map_of [(''default'', [(''label'', JStr ''Hi''), (''onClick'', JFun 0)])] ''default'' =
      Some [(''label'', JStr ''Hi''), (''onClick'', JFun 0)]"
    by simp
  have h3: "example_split (JObj [(''label'', JStr ''Hi''), (''onClick'', JFun 0)]) =
      Some \<lparr>serializable = [(''label'', JStr ''Hi'')], unserializable = [(''onClick'', JFun 0)]\<rparr>"
    by (simp add: example_split_def)
  have h4: "unbindPrev (run example_builtins example_split [Connect example_args] init) = Some 0
      \<and> bindings (run example_builtins example_split [Connect example_args] init) ! 0 = example_args"
    by (simp add: run_Cons run_Nil init_def)
  show ?thesis
    using h1 h2 h3 h4
      C3_fixtureSelect [where split = example_split and s = init and B = example_builtins
        and es = "[Connect example_args]" and i = 0, OF h1 h2 h3]
    by (simp add: example_args_def)
qed

subsection \<open>Editing the selected fixture\<close>

lemma laid_over_object:
  assumes "distinct (map fst src)"
    and "\<forall>k \<in> fst ` set src. object_proto B k = None \<and> k \<noteq> ''__proto__''"
  shows "\<exists>r. laid_over B (Some (JObj u)) (JObj src) = JObj r
     \<and> (\<forall>j. map_of src j = None \<longrightarrow> map_of r j = map_of u j)
     \<and> (\<forall>j y. map_of src j = Some y \<and> is_atom y \<longrightarrow> map_of r j = Some y)"
proof -
  have "map_of (baseMerge B 1 u src) j = map_of u j" if "map_of src j = None" for j
    using baseMerge_map_of [OF assms, of u j] that by simp
  moreover have "map_of (baseMerge B 1 u src) j = Some y"
    if "map_of src j = Some y" and "is_atom y" for j y
    using baseMerge_map_of [OF assms, of u j] that
    by (cases y) (simp_all add: laid_over_def)
  ultimately show ?thesis
    by (simp add: laid_over_def)
qed

lemma wf_obj_keys:
  assumes "wf_obj B ps"
  shows "distinct (map fst ps)" and "\<forall>j \<in> fst ` set ps. object_proto B j = None"
    and "''__proto__'' \<notin> fst ` set ps"
  using assms unfolding wf_obj_def wf_val.simps own_keys_def by simp_all

lemma edited_map_of:
  assumes "wf_obj B un" and "wf_obj B ser" and "wf_obj B body"
  shows "map_of (merge B [] [un, spread [ser, body]]) k =
     (case map_of body k of
        Some e \<Rightarrow> Some (laid_over B (map_of un k) e)
      | None \<Rightarrow>
          (case map_of ser k of
             Some e \<Rightarrow> Some (laid_over B (map_of un k) e)
           | None \<Rightarrow> map_of un k))"
proof -
  note d = wf_obj_keys(1) [OF assms(2)] wf_obj_keys(1) [OF assms(3)]
  have plain:
    "\<forall>k \<in> fst ` set ser \<union> fst ` set body. object_proto B k = None \<and> k \<noteq> ''__proto__''"
    using wf_obj_keys(2,3) [OF assms(2)] wf_obj_keys(2,3) [OF assms(3)]
    by (auto simp: image_iff)
  have "merge B [] [un, spread [ser, body]] = baseMerge B 1 un (spread [ser, body])"
    by (simp add: merge_def baseMerge_copy [OF assms(1)])
  moreover have "map_of (baseMerge B 1 un (spread [ser, body])) k =
     (case map_of (spread [ser, body]) k of
        None \<Rightarrow> map_of un k
      | Some e \<Rightarrow> Some (laid_over B (map_of un k) e))"
    using plain by (intro baseMerge_map_of) (simp_all add: spread2_distinct spread2_keys)
  ultimately show ?thesis
    by (simp add: spread2_map_of [OF d] map_add_def split: option.splits)
qed

text \<open>
  C4. A \<open>fixtureEdit\<close> message while a fixture is selected sets \<open>hasFixtureUpdate\<close> and
  posts nothing. When the registry of the listening call has the selected fixture
  \<open>fx\<close> and the splitter returns its parts \<open>p\<close>, the message mounts exactly once, and
  what it mounts is \<open>applyFixturePart\<close> of the fixture and the body: the merge of the
  unserializable part with the spread of the serializable part and the body.

  What that object is, for well-formed parts and body: at every key it has the value
  of the body, or else of the serializable part, laid over what the unserializable
  part has there, and where neither has the key, what the unserializable part has.
  Laying an object over an object is a merge, which obeys the same law at every
  depth; so the properties of an unserializable object that the body's object does
  not name are kept, and the plain values the body's object names take their place.
  Merging into the empty object copies.

  The example of the specification: parts \<open>{a: 1, b: 2}\<close> and \<open>{fn: F}\<close> with the body
  \<open>{b: 9}\<close> give the object with \<open>fn: F\<close>, \<open>a: 1\<close>, \<open>b: 9\<close>, which has the properties
  of \<open>{a: 1, b: 9, fn: F}\<close>. And with a key in both parts: \<open>{props: {label: 'Hi'}}\<close>
  and \<open>{props: {cb: F}}\<close> with the body \<open>{props: {label: 'Bye'}}\<close> give
  \<open>{props: {cb: F, label: 'Bye'}}\<close>.
\<close>

theorem C4_fixtureEdit:
  assumes "selected s = Some (c, f)"
  shows "hasFixtureUpdate (snd (onMessage B split a (FixtureEdit body) s)) = True
     \<and> posted (new_effects s (snd (onMessage B split a (FixtureEdit body) s))) = []
     \<and> (map_of (fixtures a) c = Some cf \<and> map_of cf f = Some fx \<and> split (JObj fx) = Some p \<longrightarrow>
          applyFixturePart B split (JObj fx) body =
            Inr (JObj (merge B [] [unserializable p, spread [serializable p, body]]))
        \<and> onMessage B split a (FixtureEdit body) s =
            (Inr (),
             s\<lparr>hasFixtureUpdate := True,
               effects := effects s @
                 [Mount (renderer a) (proxies a)
                    (JObj (merge B [] [unserializable p, spread [serializable p, body]]))]\<rparr>)
        \<and> (wf_obj B (unserializable p) \<and> wf_obj B (serializable p) \<and> wf_obj B body \<longrightarrow>
              (\<forall>k. map_of (merge B [] [unserializable p, spread [serializable p, body]]) k =
                 (case map_of body k of
                    Some e \<Rightarrow> Some (laid_over B (map_of (unserializable p) k) e)
                  | None \<Rightarrow>
                      (case map_of (serializable p) k of
                         Some e \<Rightarrow> Some (laid_over B (map_of (unserializable p) k) e)
                       | None \<Rightarrow> map_of (unserializable p) k)))))
     \<and> (distinct (map fst src)
          \<and> (\<forall>k \<in> fst ` set src. object_proto B k = None \<and> k \<noteq> ''__proto__'') \<longrightarrow>
          (\<forall>k. map_of (baseMerge B 1 object src) k =
             (case map_of src k of
                None \<Rightarrow> map_of object k
              | Some e \<Rightarrow> Some (laid_over B (map_of object k) e)))
        \<and> (\<exists>r. laid_over B (Some (JObj object)) (JObj src) = JObj r
             \<and> (\<forall>j. map_of src j = None \<longrightarrow> map_of r j = map_of object j)
             \<and> (\<forall>j y. map_of src j = Some y \<and> is_atom y \<longrightarrow> map_of r j = Some y)))
     \<and> (wf_obj B src \<longrightarrow> baseMerge B i [] src = src)
     \<and> (split' fx' =
          Some \<lparr>serializable = [(''a'', JNum 1), (''b'', JNum 2)],
                unserializable = [(''fn'', JFun F)]\<rparr>
          \<and> object_proto B ''a'' = None \<and> object_proto B ''b'' = None
          \<and> object_proto B ''fn'' = None \<longrightarrow>
          applyFixturePart B split' fx' [(''b'', JNum 9)] =
            Inr (JObj [(''fn'', JFun F), (''a'', JNum 1), (''b'', JNum 9)])
        \<and> map_of [(''fn'', JFun F), (''a'', JNum 1), (''b'', JNum 9)] =
            map_of [(''a'', JNum 1), (''b'', JNum 9), (''fn'', JFun F)])
     \<and> (split' fx' =
          Some \<lparr>serializable = [(''props'', JObj [(''label'', JStr ''Hi'')])],
                unserializable = [(''props'', JObj [(''cb'', JFun F)])]\<rparr>
          \<and> object_proto B ''props'' = None \<and> object_proto B ''label'' = None
          \<and> object_proto B ''cb'' = None \<longrightarrow>
          applyFixturePart B split' fx' [(''props'', JObj [(''label'', JStr ''Bye'')])] =
            Inr (JObj [(''props'', JObj [(''cb'', JFun F), (''label'', JStr ''Bye'')])]))"
proof -
  have flag: "hasFixtureUpdate (snd (onMessage B split a (FixtureEdit body) s)) = True"
    using assms
    by (simp add: onMessage_def loadFixture_def Let_def split: option.splits sum.splits)
  obtain ms where "effects (snd (onMessage B split a (FixtureEdit body) s)) = effects s @ ms"
    and "posted ms = []"
    using onMessage_edit_effects by blast
  then have quiet: "posted (new_effects s (snd (onMessage B split a (FixtureEdit body) s))) = []"
    by (simp add: new_effects_def)
  have edit: "map_of (fixtures a) c = Some cf \<and> map_of cf f = Some fx \<and> split (JObj fx) = Some p \<longrightarrow>
          applyFixturePart B split (JObj fx) body =
            Inr (JObj (merge B [] [unserializable p, spread [serializable p, body]]))
        \<and> onMessage B split a (FixtureEdit body) s =
            (Inr (),
             s\<lparr>hasFixtureUpdate := True,
               effects := effects s @
                 [Mount (renderer a) (proxies a)
                    (JObj (merge B [] [unserializable p, spread [serializable p, body]]))]\<rparr>)
        \<and> (wf_obj B (unserializable p) \<and> wf_obj B (serializable p) \<and> wf_obj B body \<longrightarrow>
              (\<forall>k. map_of (merge B [] [unserializable p, spread [serializable p, body]]) k =
                 (case map_of body k of
                    Some e \<Rightarrow> Some (laid_over B (map_of (unserializable p) k) e)
                  | None \<Rightarrow>
                      (case map_of (serializable p) k of
                         Some e \<Rightarrow> Some (laid_over B (map_of (unserializable p) k) e)
                       | None \<Rightarrow> map_of (unserializable p) k))))"
    using onMessage_edit [OF assms, where a = a and cf = cf and fx = fx and split = split
        and p = p and body = body and B = B]
      edited_map_of [of B "unserializable p" "serializable p" body]
    by (simp add: applyFixturePart_def)
  have law: "distinct (map fst src)
          \<and> (\<forall>k \<in> fst ` set src. object_proto B k = None \<and> k \<noteq> ''__proto__'') \<longrightarrow>
          (\<forall>k. map_of (baseMerge B 1 object src) k =
             (case map_of src k of
                None \<Rightarrow> map_of object k
              | Some e \<Rightarrow> Some (laid_over B (map_of object k) e)))
        \<and> (\<exists>r. laid_over B (Some (JObj object)) (JObj src) = JObj r
             \<and> (\<forall>j. map_of src j = None \<longrightarrow> map_of r j = map_of object j)
             \<and> (\<forall>j y. map_of src j = Some y \<and> is_atom y \<longrightarrow> map_of r j = Some y))"
    using baseMerge_map_of [of src B object] laid_over_object [of src B object]
    by blast
  have copy: "wf_obj B src \<longrightarrow> baseMerge B i [] src = src"
    by (simp add: baseMerge_copy)
  have flat: "split' fx' =
          Some \<lparr>serializable = [(''a'', JNum 1), (''b'', JNum 2)],
                unserializable = [(''fn'', JFun F)]\<rparr>
          \<and> object_proto B ''a'' = None \<and> object_proto B ''b'' = None
          \<and> object_proto B ''fn'' = None \<longrightarrow>
          applyFixturePart B split' fx' [(''b'', JNum 9)] =
            Inr (JObj [(''fn'', JFun F), (''a'', JNum 1), (''b'', JNum 9)])
        \<and> map_of [(''fn'', JFun F), (''a'', JNum 1), (''b'', JNum 9)] =
            map_of [(''a'', JNum 1), (''b'', JNum 9), (''fn'', JFun F)]"
    by (auto simp: applyFixturePart_def merge_def spread_def assignMergeValue_def read_key_def
        key_in_def assign_def array_index_def digit_of_def fun_eq_iff)
  have nested: "split' fx' =
          Some \<lparr>serializable = [(''props'', JObj [(''label'', JStr ''Hi'')])],
                unserializable = [(''props'', JObj [(''cb'', JFun F)])]\<rparr>
          \<and> object_proto B ''props'' = None \<and> object_proto B ''label'' = None
          \<and> object_proto B ''cb'' = None \<longrightarrow>
          applyFixturePart B split' fx' [(''props'', JObj [(''label'', JStr ''Bye'')])] =
            Inr (JObj [(''props'', JObj [(''cb'', JFun F), (''label'', JStr ''Bye'')])])"
    by (auto simp: applyFixturePart_def merge_def spread_def assignMergeValue_def read_key_def
        key_in_def deep_target_def assign_def array_index_def digit_of_def)
  from flag quiet edit law copy flat nested show ?thesis by blast
qed

text \<open>
  The edit at a concrete input: the selected fixture of the scenario with the label
  edited, and the two examples.
\<close>

theorem C4_fixtureEdit_witness:
  "selected example_selected = Some (''Button'', ''default'')
   \<and> map_of (fixtures example_args) ''Button'' =
       Some [(''default'', [(''label'', JStr ''Hi''), (''onClick'', JFun 0)])]
   \<and> example_split (JObj [(''label'', JStr ''Hi''), (''onClick'', JFun 0)]) =
       Some \<lparr>serializable = [(''label'', JStr ''Hi'')], unserializable = [(''onClick'', JFun 0)]\<rparr>
   \<and> wf_obj example_builtins [(''onClick'', JFun 0)]
   \<and> wf_obj example_builtins [(''label'', JStr ''Hi'')]
   \<and> wf_obj example_builtins [(''label'', JStr ''Bye'')]
   \<and> onMessage example_builtins example_split example_args
        (FixtureEdit [(''label'', JStr ''Bye'')]) example_selected =
       (Inr (),
        example_selected
          \<lparr>hasFixtureUpdate := True,
           effects := effects example_selected @
             [Mount 0 [] (JObj [(''onClick'', JFun 0), (''label'', JStr ''Bye'')])]\<rparr>)
   \<and> wf_obj example_builtins [(''props'', JObj [(''label'', JStr ''Bye'')])]
   \<and> baseMerge example_builtins 1 [(''props'', JObj [(''cb'', JFun 0)])]
        [(''props'', JObj [(''label'', JStr ''Bye'')])] =
       [(''props'', JObj [(''cb'', JFun 0), (''label'', JStr ''Bye'')])]
   \<and> baseMerge example_builtins 1 [] [(''props'', JObj [(''label'', JStr ''Bye'')])] =
       [(''props'', JObj [(''label'', JStr ''Bye'')])]
   \<and> applyFixturePart example_builtins
        (\<lambda>v. Some \<lparr>serializable = [(''a'', JNum 1), (''b'', JNum 2)],
                    unserializable = [(''fn'', JFun 0)]\<rparr>) JNull [(''b'', JNum 9)] =
       Inr (JObj [(''fn'', JFun 0), (''a'', JNum 1), (''b'', JNum 9)])"
proof -
  have h: "selected example_selected = Some (''Button'', ''default'')"
    by (simp add: example_selected_eq)
  have wf: "wf_obj example_builtins [(''onClick'', JFun 0)]"
    "wf_obj example_builtins [(''label'', JStr ''Hi'')]"
    "wf_obj example_builtins [(''label'', JStr ''Bye'')]"
    "wf_obj example_builtins [(''props'', JObj [(''label'', JStr ''Bye'')])]"
    by (simp_all add: wf_obj_def own_keys_def example_builtins_def)
  have plain: "object_proto example_builtins ''a'' = None"
    "object_proto example_builtins ''b'' = None" "object_proto example_builtins ''fn'' = None"
    "object_proto example_builtins ''props'' = None"
    by (simp_all add: example_builtins_def)
  show ?thesis
    using h wf plain
      C4_fixtureEdit [where B = example_builtins and split = example_split and a = example_args
        and body = "[(''label'', JStr ''Bye'')]"
        and cf = "[(''default'', [(''label'', JStr ''Hi''), (''onClick'', JFun 0)])]"
        and fx = "[(''label'', JStr ''Hi''), (''onClick'', JFun 0)]"
        and p = "\<lparr>serializable = [(''label'', JStr ''Hi'')], unserializable = [(''onClick'', JFun 0)]\<rparr>"
        and src = "[(''props'', JObj [(''label'', JStr ''Bye'')])]"
        and object = "[(''props'', JObj [(''cb'', JFun 0)])]" and i = 1
        and split' = "\<lambda>v. Some \<lparr>serializable = [(''a'', JNum 1), (''b'', JNum 2)],
                    unserializable = [(''fn'', JFun 0)]\<rparr>"
        and fx' = JNull and F = 0, OF h]
    by (simp add: example_args_def example_fixtures_def example_split_def
        merge_def spread_def assign_def array_index_def digit_of_def
        assignMergeValue_def read_key_def key_in_def deep_target_def example_builtins_def)
qed

subsection \<open>Announcing the fixture list\<close>

text \<open>
  C5. Along any run from the loaded module, the \<open>loaderReady\<close> and
  \<open>fixtureListUpdate\<close> messages posted are exactly the expected announcements: one per
  call of \<open>connectLoader\<close>, \<open>loaderReady\<close> when no binding is active at the call (the
  first call, or the first after a \<open>destroy\<close>) and \<open>fixtureListUpdate\<close> otherwise. In
  terms of the state: a call posts one announcement, \<open>loaderReady\<close> when \<open>unbindPrev\<close>
  is empty and \<open>fixtureListUpdate\<close> when it is not. The \<open>fixtures\<close> field is the
  registry with every component mapped to the names of its fixtures: for a registry
  whose keys are in the order of enumeration it is that list, entry by entry, and
  for every registry the names of a component other than \<open>__proto__\<close> are found in it
  exactly when the registry has the component.
\<close>

theorem C5_announcements:
  "map Post (announcements False es) = filter is_announcement (effects (run B split es init))
   \<and> filter is_announcement (new_effects s (snd (connectLoader B split a s))) =
       [Post (if unbindPrev s = None then LoaderReady (extractFixtureNames (fixtures a))
              else FixtureListUpdate (extractFixtureNames (fixtures a)))]
   \<and> (own_keys (map fst fs) \<longrightarrow> extractFixtureNames fs = map (\<lambda>(c, cf). (c, map fst cf)) fs)
   \<and> (c \<noteq> ''__proto__'' \<longrightarrow>
        map_of (extractFixtureNames fs) c = map_option (map fst) (map_of fs c))"
proof -
  have "filter is_announcement (new_effects s (snd (connectLoader B split a s))) =
       [Post (if unbindPrev s = None then LoaderReady (extractFixtureNames (fixtures a))
              else FixtureListUpdate (extractFixtureNames (fixtures a)))]"
    by (simp add: connectLoader_new_effects split: option.splits sum.splits)
  then show ?thesis
    using run_announcements [of B split es init] extractFixtureNames_own_keys [of fs]
      extractFixtureNames_map_of [of c fs]
    by (simp add: init_def)
qed

text \<open>
  The names of the scenario's registry.
\<close>

theorem C5_announcements_witness:
  "own_keys (map fst example_fixtures)
   \<and> extractFixtureNames example_fixtures = [(''Button'', [''default''])]
   \<and> map_of (extractFixtureNames example_fixtures) ''Button'' = Some [''default'']"
proof -
  have h: "own_keys (map fst example_fixtures)"
    by (simp add: own_keys_def example_fixtures_def)
  show ?thesis
    using h C5_announcements [where es = "[]" and B = example_builtins and split = example_split
        and s = init and a = example_args and fs = example_fixtures and c = "''Button''"]
    by (simp add: example_fixtures_def)
qed

subsection \<open>Messages that are refused\<close>

text \<open>
  C6. The test made on a \<open>fixtureSelect\<close> reads the registry through the prototype
  chain. The registry of the scenario has no component \<open>constructor\<close>, yet the test
  succeeds for the pair \<open>constructor\<close>/\<open>name\<close>: with any splitter and in any state
  the message sets the selection to that pair, sets \<open>hasFixtureUpdate\<close> to false and
  mounts the string \<open>Object\<close>, and it does not call \<open>console.error\<close>. And a
  \<open>fixtureEdit\<close> that fails, the component of the selection being gone from the
  registry, has set \<open>hasFixtureUpdate\<close> before it fails.

  The refusals that are as stated: a \<open>fixtureSelect\<close> of \<open>Missing\<close>/\<open>x\<close> and a
  \<open>fixtureEdit\<close> on the loaded module, where nothing is selected, call \<open>console.error\<close>
  and do nothing else; a message of another type changes nothing.
\<close>

theorem C6_failure_paths:
  "map_of (fixtures example_args) ''constructor'' = None
   \<and> has_fixture example_builtins (fixtures example_args) ''constructor'' ''name''
   \<and> selected (snd (onMessage example_builtins split example_args
        (FixtureSelect ''constructor'' ''name'') s)) = Some (''constructor'', ''name'')
   \<and> hasFixtureUpdate (snd (onMessage example_builtins split example_args
        (FixtureSelect ''constructor'' ''name'') s)) = False
   \<and> mounted (new_effects s (snd (onMessage example_builtins split example_args
        (FixtureSelect ''constructor'' ''name'') s))) = [JStr ''Object'']
   \<and> ConsoleError m \<notin> set (new_effects s (snd (onMessage example_builtins split example_args
        (FixtureSelect ''constructor'' ''name'') s)))
   \<and> onMessage example_builtins split example_gone (FixtureEdit body) example_selected =
       (Inl TypeError, example_selected\<lparr>hasFixtureUpdate := True\<rparr>)
   \<and> hasFixtureUpdate example_selected = False
   \<and> onMessage example_builtins split example_args (FixtureSelect ''Missing'' ''x'') s =
       (Inr (), s\<lparr>effects := effects s @
          [ConsoleError ''[Cosmos] Missing fixture for Missing:x'']\<rparr>)
   \<and> onMessage B split a (FixtureEdit body) init =
       (Inr (), init\<lparr>effects := [ConsoleError ''[Cosmos] No selected fixture to edit'']\<rparr>)
   \<and> onMessage B split a (OtherMessage t) s = (Inr (), s)"
proof -
  have at: "fixture_at example_builtins example_fixtures ''constructor'' ''name'' =
      Inr (JStr ''Object'')"
    and has: "has_fixture example_builtins example_fixtures ''constructor'' ''name''"
    and none: "map_of example_fixtures ''constructor'' = None"
    by (simp_all add: fixture_at_def has_fixture_def get_prop_def fixtures_value_def
        component_value_def example_fixtures_def example_builtins_def)
  have sel: "onMessage example_builtins split example_args
        (FixtureSelect ''constructor'' ''name'') s =
      (case split (JStr ''Object'') of
         None \<Rightarrow>
           (Inl TypeError,
            s\<lparr>selected := Some (''constructor'', ''name''), hasFixtureUpdate := False,
              effects := effects s @ [Mount 0 [] (JStr ''Object'')]\<rparr>)
       | Some p \<Rightarrow>
           (Inr (),
            s\<lparr>selected := Some (''constructor'', ''name''), hasFixtureUpdate := False,
              effects := effects s @
                [Mount 0 [] (JStr ''Object''), Post (FixtureLoad (serializable p)), Dismiss 0]\<rparr>))"
    by (simp add: onMessage_def has at loadFixture_def emit_def postMessageToParent_def
        Let_def example_args_def split: option.splits)
  have gone: "fixture_at example_builtins (fixtures example_gone) ''Button'' ''default'' =
      Inl TypeError"
    by (simp add: fixture_at_def get_prop_def fixtures_value_def example_gone_def
        example_args_def example_builtins_def)
  have edit: "onMessage example_builtins split example_gone (FixtureEdit body) example_selected =
       (Inl TypeError, example_selected\<lparr>hasFixtureUpdate := True\<rparr>)"
    by (simp add: onMessage_def gone example_selected_eq Let_def)
  have missing: "\<not> has_fixture example_builtins (fixtures example_args) ''Missing'' ''x''"
    by (simp add: has_fixture_def get_prop_def fixtures_value_def component_value_def
        example_args_def example_fixtures_def example_builtins_def)
  have refused: "onMessage example_builtins split example_args (FixtureSelect ''Missing'' ''x'') s =
       (Inr (), s\<lparr>effects := effects s @
          [ConsoleError ''[Cosmos] Missing fixture for Missing:x'']\<rparr>)"
    by (simp add: onMessage_def missing emit_def)
  have rest: "onMessage B split a (FixtureEdit body) init =
       (Inr (), init\<lparr>effects := [ConsoleError ''[Cosmos] No selected fixture to edit'']\<rparr>)"
    "onMessage B split a (OtherMessage t) s = (Inr (), s)"
    "hasFixtureUpdate example_selected = False"
    by (simp_all add: onMessage_def emit_def init_def example_selected_eq)
  have "selected (snd (onMessage example_builtins split example_args
        (FixtureSelect ''constructor'' ''name'') s)) = Some (''constructor'', ''name'')"
    and "hasFixtureUpdate (snd (onMessage example_builtins split example_args
        (FixtureSelect ''constructor'' ''name'') s)) = False"
    and "mounted (new_effects s (snd (onMessage example_builtins split example_args
        (FixtureSelect ''constructor'' ''name'') s))) = [JStr ''Object'']"
    and "ConsoleError m \<notin> set (new_effects s (snd (onMessage example_builtins split example_args
        (FixtureSelect ''constructor'' ''name'') s)))"
    by (simp_all add: sel new_effects_def split: option.splits)
  with has none edit refused rest show ?thesis
    by (simp add: example_args_def)
qed

subsection \<open>Destroying\<close>

text \<open>
  C7, as amended. \<open>destroy\<close> called while a binding is active removes that binding's
  listener, empties \<open>unbindPrev\<close> and the selection and sets \<open>hasFixtureUpdate\<close> to
  false; called while no binding is active it changes nothing, so a second call is a
  no-op. \<open>connectLoader\<close> never assigns the selection or \<open>hasFixtureUpdate\<close>: a new
  binding starts with the values it finds, which are empty and false when the module
  has just been loaded.
\<close>

theorem C7_destroy_resets:
  "(unbindPrev s = Some j \<longrightarrow>
      destroy i s =
        s\<lparr>unbindPrev := None, selected := None, hasFixtureUpdate := False,
          listeners := remove1 j (listeners s), effects := effects s @ [RemoveListener j]\<rparr>)
   \<and> (unbindPrev s = None \<longrightarrow> destroy i s = s)
   \<and> destroy i' (destroy i s) = destroy i s
   \<and> selected (snd (connectLoader B split a s)) = selected s
   \<and> hasFixtureUpdate (snd (connectLoader B split a s)) = hasFixtureUpdate s
   \<and> selected init = None \<and> hasFixtureUpdate init = False"
proof -
  have "destroy i' (destroy i s) = destroy i s"
    by (rule destroy_inactive) simp
  then show ?thesis
    by (simp add: destroy_active destroy_inactive init_def)
qed

text \<open>
  \<open>destroy\<close> at a concrete input, with a binding active and with none.
\<close>

theorem C7_destroy_resets_witness:
  "unbindPrev example_selected = Some 0
   \<and> destroy 0 example_selected =
       example_selected\<lparr>unbindPrev := None, selected := None, hasFixtureUpdate := False,
         listeners := [], effects := effects example_selected @ [RemoveListener 0]\<rparr>
   \<and> unbindPrev init = None
   \<and> destroy 0 init = init"
proof -
  have h1: "unbindPrev example_selected = Some 0"
    by (simp add: example_selected_eq)
  have h2: "unbindPrev init = None"
    by (simp add: init_def)
  show ?thesis
    using h1 h2 C7_destroy_resets [where s = example_selected and j = 0 and i = 0]
      C7_destroy_resets [where s = init and j = 0 and i = 0]
    by (simp add: example_selected_eq)
qed

text \<open>
  C7 as stated fails: the selection and \<open>hasFixtureUpdate\<close> are not set afresh by a
  new binding. After a selection and an edit, a second call of \<open>connectLoader\<close> leaves
  the selection in place and \<open>hasFixtureUpdate\<close> true; and an \<open>onUpdate\<close> callback
  of the mounted fixture after a \<open>destroy\<close> leaves \<open>hasFixtureUpdate\<close> true for the
  binding made next.
\<close>

theorem C7_counterexample:
  "selected (run example_builtins example_split
       [Connect example_args, Message (FixtureSelect ''Button'' ''default''),
        Message (FixtureEdit [(''label'', JStr ''Bye'')]), Connect example_args] init) =
     Some (''Button'', ''default'')
   \<and> hasFixtureUpdate (run example_builtins example_split
       [Connect example_args, Message (FixtureSelect ''Button'' ''default''),
        Message (FixtureEdit [(''label'', JStr ''Bye'')]), Connect example_args] init)
   \<and> hasFixtureUpdate (run example_builtins example_split
       [Connect example_args, Message (FixtureSelect ''Button'' ''default''), Destroy 0,
        ContextUpdate (JObj [(''count'', JNum 1)]), Connect example_args] init)"
  by (simp add: eval_simps applyFixturePart_def)

subsection \<open>Updates from the mounted context\<close>

text \<open>
  C8. A call of \<open>onContextUpdate\<close> sets \<open>hasFixtureUpdate\<close> and leaves the selection
  as it is; when the splitter returns the parts \<open>p\<close> of the fixture part, the call
  posts \<open>fixtureUpdate\<close> with the serializable part and changes nothing else.
\<close>

theorem C8_onContextUpdate:
  "hasFixtureUpdate (snd (onContextUpdate split part s)) = True
   \<and> selected (snd (onContextUpdate split part s)) = selected s
   \<and> (split part = Some p \<longrightarrow>
        onContextUpdate split part s =
          (Inr (), s\<lparr>hasFixtureUpdate := True,
             effects := effects s @ [Post (FixtureUpdate (serializable p))]\<rparr>))"
  by (simp add: onContextUpdate_def emit_def postMessageToParent_def Let_def split: option.splits)

text \<open>
  An update at a concrete input.
\<close>

theorem C8_onContextUpdate_witness:
  "example_split (JObj [(''count'', JNum 1)]) =
     Some \<lparr>serializable = [(''count'', JNum 1)], unserializable = []\<rparr>
   \<and> onContextUpdate example_split (JObj [(''count'', JNum 1)]) example_selected =
       (Inr (), example_selected\<lparr>hasFixtureUpdate := True,
          effects := effects example_selected @ [Post (FixtureUpdate [(''count'', JNum 1)])]\<rparr>)"
proof -
  have h: "example_split (JObj [(''count'', JNum 1)]) =
     Some \<lparr>serializable = [(''count'', JNum 1)], unserializable = []\<rparr>"
    by (simp add: example_split_def)
  show ?thesis
    using h C8_onContextUpdate [where split = example_split and part = "JObj [(''count'', JNum 1)]"
        and s = example_selected
        and p = "\<lparr>serializable = [(''count'', JNum 1)], unserializable = []\<rparr>"]
    by simp
qed

subsection \<open>The unguarded lookup\<close>

text \<open>
  C9, as amended. With a fixture selected, the lookup \<open>fixtures[component][fixture]\<close>
  of the rebind and of \<open>fixtureEdit\<close> is not guarded, and neither calls
  \<open>console.error\<close>. A rebind with \<open>hasFixtureUpdate\<close> false: when the lookup fails,
  the call fails with a \<open>TypeError\<close> after the listener is installed and the list
  posted, and nothing is mounted; otherwise the value of the lookup is mounted, and
  the call then fails or posts \<open>fixtureLoad\<close> as the splitter does on that value. A
  \<open>fixtureEdit\<close>: \<open>hasFixtureUpdate\<close> is set; when the lookup fails, or the splitter
  throws on its value, the handler fails with a \<open>TypeError\<close>; otherwise it mounts the
  fixture made from the parts of that value.

  The lookup in a registry that does not have the selected entry: when the component
  is gone it fails, unless \<open>Object.prototype\<close> has a member of the component's name,
  and then it reads the fixture's name from that member; when only the fixture is
  gone its value is \<open>undefined\<close>, unless \<open>Object.prototype\<close> has a member of the
  fixture's name, and then it is that member. A \<open>fixtureSelect\<close> whose test fails
  only calls \<open>console.error\<close>.
\<close>

theorem C9_unguarded_lookup:
  assumes "selected s = Some (c, f)"
  shows
    "(unbindPrev s = Some j \<and> \<not> hasFixtureUpdate s \<longrightarrow>
        (case fixture_at B (fixtures a) c f of
           Inl e \<Rightarrow>
             fst (connectLoader B split a s) = Inl TypeError
             \<and> new_effects s (snd (connectLoader B split a s)) =
                 [RemoveListener j, AddListener (length (bindings s)),
                  Post (FixtureListUpdate (extractFixtureNames (fixtures a)))]
         | Inr v \<Rightarrow>
             fst (connectLoader B split a s) =
               (case split v of None \<Rightarrow> Inl TypeError | Some p \<Rightarrow> Inr (length (bindings s)))
             \<and> new_effects s (snd (connectLoader B split a s)) =
                 [RemoveListener j, AddListener (length (bindings s)),
                  Post (FixtureListUpdate (extractFixtureNames (fixtures a))),
                  Mount (renderer a) (proxies a) v] @
                 (case split v of
                    None \<Rightarrow> []
                  | Some p \<Rightarrow> [Post (FixtureLoad (serializable p))])))
     \<and> onMessage B split a (FixtureEdit body) s =
        (case fixture_at B (fixtures a) c f of
           Inl e \<Rightarrow> (Inl TypeError, s\<lparr>hasFixtureUpdate := True\<rparr>)
         | Inr v \<Rightarrow>
             (case split v of
                None \<Rightarrow> (Inl TypeError, s\<lparr>hasFixtureUpdate := True\<rparr>)
              | Some p \<Rightarrow>
                  (Inr (),
                   s\<lparr>hasFixtureUpdate := True,
                     effects := effects s @
                       [Mount (renderer a) (proxies a)
                          (JObj (merge B [] [unserializable p, spread [serializable p, body]]))]\<rparr>)))
     \<and> (map_of (fixtures a) c = None \<longrightarrow>
          fixture_at B (fixtures a) c f =
            (case object_proto B c of None \<Rightarrow> Inl TypeError | Some v \<Rightarrow> get_prop B v f))
     \<and> (map_of (fixtures a) c = Some cf \<and> map_of cf f = None \<longrightarrow>
          fixture_at B (fixtures a) c f =
            Inr (case object_proto B f of None \<Rightarrow> JUndefined | Some v \<Rightarrow> v))
     \<and> (\<not> has_fixture B (fixtures a) c f \<longrightarrow>
          onMessage B split a (FixtureSelect c f) s =
            (Inr (), s\<lparr>effects := effects s @
               [ConsoleError (''[Cosmos] Missing fixture for '' @ c @ '':'' @ f)]\<rparr>))"
proof -
  have rebind: "unbindPrev s = Some j \<and> \<not> hasFixtureUpdate s \<longrightarrow>
        (case fixture_at B (fixtures a) c f of
           Inl e \<Rightarrow>
             fst (connectLoader B split a s) = Inl TypeError
             \<and> new_effects s (snd (connectLoader B split a s)) =
                 [RemoveListener j, AddListener (length (bindings s)),
                  Post (FixtureListUpdate (extractFixtureNames (fixtures a)))]
         | Inr v \<Rightarrow>
             fst (connectLoader B split a s) =
               (case split v of None \<Rightarrow> Inl TypeError | Some p \<Rightarrow> Inr (length (bindings s)))
             \<and> new_effects s (snd (connectLoader B split a s)) =
                 [RemoveListener j, AddListener (length (bindings s)),
                  Post (FixtureListUpdate (extractFixtureNames (fixtures a))),
                  Mount (renderer a) (proxies a) v] @
                 (case split v of
                    None \<Rightarrow> []
                  | Some p \<Rightarrow> [Post (FixtureLoad (serializable p))]))"
    using assms
    by (auto simp: connectLoader_new_effects connectLoader_def loadFixture_def Let_def
        js_error_only split: option.splits sum.splits)
  have edit: "onMessage B split a (FixtureEdit body) s =
        (case fixture_at B (fixtures a) c f of
           Inl e \<Rightarrow> (Inl TypeError, s\<lparr>hasFixtureUpdate := True\<rparr>)
         | Inr v \<Rightarrow>
             (case split v of
                None \<Rightarrow> (Inl TypeError, s\<lparr>hasFixtureUpdate := True\<rparr>)
              | Some p \<Rightarrow>
                  (Inr (),
                   s\<lparr>hasFixtureUpdate := True,
                     effects := effects s @
                       [Mount (renderer a) (proxies a)
                          (JObj (merge B [] [unserializable p, spread [serializable p, body]]))]\<rparr>)))"
    using assms
    by (auto simp: onMessage_def applyFixturePart_def loadFixture_def emit_def Let_def
        js_error_only split: option.splits sum.splits)
  have select: "\<not> has_fixture B (fixtures a) c f \<longrightarrow>
          onMessage B split a (FixtureSelect c f) s =
            (Inr (), s\<lparr>effects := effects s @
               [ConsoleError (''[Cosmos] Missing fixture for '' @ c @ '':'' @ f)]\<rparr>)"
    by (simp add: onMessage_def emit_def)
  from rebind edit select fixture_at_no_component [of "fixtures a" c B f]
    fixture_at_no_fixture [of "fixtures a" c cf f B]
  show ?thesis by blast
qed

text \<open>
  The lookup at concrete inputs: the component has gone from the registry of the
  second binding, and the fixture has gone from its component.
\<close>

theorem C9_unguarded_lookup_witness:
  "selected example_selected = Some (''Button'', ''default'')
   \<and> unbindPrev example_selected = Some 0
   \<and> \<not> hasFixtureUpdate example_selected
   \<and> map_of (fixtures example_gone) ''Button'' = None
   \<and> \<not> has_fixture example_builtins (fixtures example_gone) ''Button'' ''default''
   \<and> fst (connectLoader example_builtins example_split example_gone example_selected) =
       Inl TypeError
   \<and> new_effects example_selected
        (snd (connectLoader example_builtins example_split example_gone example_selected)) =
       [RemoveListener 0, AddListener 1, Post (FixtureListUpdate [])]
   \<and> onMessage example_builtins example_split example_gone
        (FixtureEdit [(''label'', JStr ''Bye'')]) example_selected =
       (Inl TypeError, example_selected\<lparr>hasFixtureUpdate := True\<rparr>)
   \<and> onMessage example_builtins example_split example_gone
        (FixtureSelect ''Button'' ''default'') example_selected =
       (Inr (), example_selected\<lparr>effects := effects example_selected @
          [ConsoleError ''[Cosmos] Missing fixture for Button:default'']\<rparr>)
   \<and> map_of (fixtures example_emptied) ''Button'' = Some []
   \<and> map_of ([] :: (string \<times> jsobj) list) ''default'' = None
   \<and> \<not> has_fixture example_builtins (fixtures example_emptied) ''Button'' ''default''
   \<and> fst (connectLoader example_builtins example_split example_emptied example_selected) =
       Inl TypeError
   \<and> new_effects example_selected
        (snd (connectLoader example_builtins example_split example_emptied example_selected)) =
       [RemoveListener 0, AddListener 1, Post (FixtureListUpdate [(''Button'', [])]),
        Mount 0 [] JUndefined]
   \<and> onMessage example_builtins example_split example_emptied
        (FixtureEdit [(''label'', JStr ''Bye'')]) example_selected =
       (Inl TypeError, example_selected\<lparr>hasFixtureUpdate := True\<rparr>)"
proof -
  have h: "selected example_selected = Some (''Button'', ''default'')"
    "unbindPrev example_selected = Some 0" "\<not> hasFixtureUpdate example_selected"
    "length (bindings example_selected) = 1"
    by (simp_all add: example_selected_eq)
  have flds: "fixtures example_gone = []" "fixtures example_emptied = [(''Button'', [])]"
    "renderer example_emptied = 0" "proxies example_emptied = []"
    by (simp_all add: example_gone_def example_emptied_def example_args_def)
  have g: "\<not> has_fixture example_builtins [] ''Button'' ''default''"
    "\<not> has_fixture example_builtins [(''Button'', [])] ''Button'' ''default''"
    "fixture_at example_builtins [] ''Button'' ''default'' = Inl TypeError"
    "fixture_at example_builtins [(''Button'', [])] ''Button'' ''default'' = Inr JUndefined"
    by (simp_all add: has_fixture_def fixture_at_def get_prop_def fixtures_value_def
        component_value_def example_builtins_def)
  have names: "extractFixtureNames [] = []"
    "extractFixtureNames [(''Button'', [])] = [(''Button'', [])]"
    by (simp_all add: extractFixtureNames_def set_member_def assign_def array_index_def
        digit_of_def)
  have sp: "example_split JUndefined = None"
    by (simp add: example_split_def)
  show ?thesis
    using
      C9_unguarded_lookup [OF h(1), where B = example_builtins and split = example_split
        and a = example_gone and j = 0 and body = "[(''label'', JStr ''Bye'')]" and cf = "[]"]
      C9_unguarded_lookup [OF h(1), where B = example_builtins and split = example_split
        and a = example_emptied and j = 0 and body = "[(''label'', JStr ''Bye'')]" and cf = "[]"]
    by (simp add: h flds g names sp)
qed

text \<open>
  C9 as stated fails: the value of an unguarded lookup in a registry without the
  selected entry can be a member of \<open>Object.prototype\<close>. The fixture \<open>toString\<close> of
  \<open>Button\<close> is selected, and a second binding brings a registry whose \<open>Button\<close> has no
  fixture. The rebind mounts the function \<open>Object.prototype.toString\<close>, posts
  \<open>fixtureLoad\<close> and returns; a \<open>fixtureEdit\<close> mounts the body of the edit.
\<close>

theorem C9_counterexample:
  "selected (run example_builtins example_split
       [Connect example_named, Message (FixtureSelect ''Button'' ''toString'')] init) =
     Some (''Button'', ''toString'')
   \<and> hasFixtureUpdate (run example_builtins example_split
       [Connect example_named, Message (FixtureSelect ''Button'' ''toString'')] init) = False
   \<and> map_of (fixtures example_emptied) ''Button'' = Some []
   \<and> fst (connectLoader example_builtins example_split example_emptied
       (run example_builtins example_split
          [Connect example_named, Message (FixtureSelect ''Button'' ''toString'')] init)) = Inr 1
   \<and> new_effects
       (run example_builtins example_split
          [Connect example_named, Message (FixtureSelect ''Button'' ''toString'')] init)
       (snd (connectLoader example_builtins example_split example_emptied
          (run example_builtins example_split
             [Connect example_named, Message (FixtureSelect ''Button'' ''toString'')] init))) =
     [RemoveListener 0, AddListener 1, Post (FixtureListUpdate [(''Button'', [])]),
      Mount 0 [] (JFun 105), Post (FixtureLoad [])]
   \<and> fst (onMessage example_builtins example_split example_emptied
       (FixtureEdit [(''label'', JStr ''Bye'')])
       (run example_builtins example_split
          [Connect example_named, Message (FixtureSelect ''Button'' ''toString'')] init)) = Inr ()
   \<and> new_effects
       (run example_builtins example_split
          [Connect example_named, Message (FixtureSelect ''Button'' ''toString'')] init)
       (snd (onMessage example_builtins example_split example_emptied
          (FixtureEdit [(''label'', JStr ''Bye'')])
          (run example_builtins example_split
             [Connect example_named, Message (FixtureSelect ''Button'' ''toString'')] init))) =
     [Mount 0 [] (JObj [(''label'', JStr ''Bye'')])]"
proof -
  have st: "run example_builtins example_split
       [Connect example_named, Message (FixtureSelect ''Button'' ''toString'')] init =
     init\<lparr>unbindPrev := Some 0, selected := Some (''Button'', ''toString''),
       bindings := [example_named], listeners := [0],
       effects := [AddListener 0, Post (LoaderReady [(''Button'', [''toString''])]),
                   Mount 0 [] (JObj [(''label'', JStr ''Hi'')]),
                   Post (FixtureLoad [(''label'', JStr ''Hi'')]), Dismiss 0]\<rparr>"
    by (simp add: eval_simps example_named_def)
  have flds: "fixtures example_emptied = [(''Button'', [])]" "renderer example_emptied = 0"
    "proxies example_emptied = []"
    by (simp_all add: example_emptied_def example_args_def)
  have at: "fixture_at example_builtins [(''Button'', [])] ''Button'' ''toString'' =
      Inr (JFun 105)"
    by (simp add: fixture_at_def get_prop_def fixtures_value_def component_value_def
        example_builtins_def)
  have plain: "object_proto example_builtins ''label'' = None"
    by (simp add: example_builtins_def)
  show ?thesis
    unfolding st
    by (simp add: at flds plain connectLoader_def onMessage_def loadFixture_def
        applyFixturePart_def emit_def postMessageToParent_def bind_def unbind_def
        new_effects_def Let_def init_def example_split_def extractFixtureNames_def
        set_member_def assign_def array_index_def digit_of_def merge_def spread_def
        assignMergeValue_def read_key_def key_in_def)
qed

subsection \<open>A \<open>destroy\<close> that has been superseded\<close>

text \<open>
  C10. Two calls of \<open>connectLoader\<close>, numbered \<open>i1\<close> and \<open>i2\<close>, after any run, with
  messages and context updates (no other call, no \<open>destroy\<close>) after each of them.
  When a call returns, it returns its own \<open>destroy\<close>. The second call's listener is
  then the one registered, and the \<open>destroy\<close> of the first call removes that
  listener, empties the selection and sets \<open>hasFixtureUpdate\<close> to false.
\<close>

theorem C10_stale_destroy:
  assumes "\<forall>e \<in> set es1. is_quiet e" and "\<forall>e \<in> set es2. is_quiet e"
  shows "let s0 = run B split es init;
             i1 = length (bindings s0);
             s1 = run B split es1 (snd (connectLoader B split a1 s0));
             i2 = length (bindings s1);
             s2 = run B split es2 (snd (connectLoader B split a2 s1))
         in i2 = Suc i1
          \<and> fst (connectLoader B split a1 s0) \<in> {Inl TypeError, Inr i1}
          \<and> fst (connectLoader B split a2 s1) \<in> {Inl TypeError, Inr i2}
          \<and> unbindPrev s2 = Some i2
          \<and> listeners s2 = [i2]
          \<and> destroy i1 s2 =
              s2\<lparr>unbindPrev := None, selected := None, hasFixtureUpdate := False,
                 listeners := [], effects := effects s2 @ [RemoveListener i2]\<rparr>"
proof -
  define s0 where "s0 = run B split es init"
  define s1 where "s1 = run B split es1 (snd (connectLoader B split a1 s0))"
  define s2 where "s2 = run B split es2 (snd (connectLoader B split a2 s1))"
  have res: "fst (connectLoader B split a s) \<in> {Inl TypeError, Inr (length (bindings s))}" for a s
    by (auto simp: connectLoader_def loadFixture_def Let_def js_error_only
        split: option.splits sum.splits prod.splits)
  have b1: "bindings s1 = bindings s0 @ [a1]"
    unfolding s1_def using quiet_run_fields [OF assms(1)] by simp
  have u2: "unbindPrev s2 = Some (length (bindings s1))"
    unfolding s2_def using quiet_run_fields [OF assms(2)] by simp
  have "single_binding s2"
    unfolding s2_def s1_def s0_def
    by (intro single_binding_run single_binding_step [of _ _ _ "Connect _", simplified]
        single_binding_init)
  with u2 have l2: "listeners s2 = [length (bindings s1)]"
    by (simp add: single_binding_def)
  have d: "destroy (length (bindings s0)) s2 =
      s2\<lparr>unbindPrev := None, selected := None, hasFixtureUpdate := False,
         listeners := [], effects := effects s2 @ [RemoveListener (length (bindings s1))]\<rparr>"
    using destroy_active [OF u2, of "length (bindings s0)"] l2 by simp
  show ?thesis
    unfolding Let_def s0_def [symmetric] s1_def [symmetric] s2_def [symmetric]
    using b1 u2 l2 d res [of a1 s0] res [of a2 s1] by simp
qed

text \<open>
  The superseded \<open>destroy\<close> at a concrete input.
\<close>

theorem C10_stale_destroy_witness:
  "list_all is_quiet [Message (FixtureSelect ''Button'' ''default'')]
   \<and> list_all is_quiet []
   \<and> listeners (snd (connectLoader example_builtins example_split example_args example_selected)) = [1]
   \<and> destroy 0 (snd (connectLoader example_builtins example_split example_args example_selected)) =
       (snd (connectLoader example_builtins example_split example_args example_selected))
         \<lparr>unbindPrev := None, selected := None, hasFixtureUpdate := False, listeners := [],
          effects := effects (snd (connectLoader example_builtins example_split example_args example_selected)) @
            [RemoveListener 1]\<rparr>"
proof -
  have h1: "\<forall>e \<in> set [Message (FixtureSelect ''Button'' ''default'')]. is_quiet e"
    by simp
  have h2: "\<forall>e \<in> set ([] :: event list). is_quiet e"
    by simp
  have s: "run example_builtins example_split [Message (FixtureSelect ''Button'' ''default'')]
      (snd (connectLoader example_builtins example_split example_args (run example_builtins example_split [] init))) =
      example_selected"
    by (simp add: example_selected_def run_Cons run_Nil)
  have b: "length (bindings example_selected) = 1" "length (bindings init) = 0"
    by (simp_all add: example_selected_eq init_def)
  show ?thesis
    using h1 h2 C10_stale_destroy [OF h1 h2, where B = example_builtins and split = example_split
        and es = "[]" and ?a1.0 = example_args and ?a2.0 = example_args]
    unfolding Let_def s
    by (simp add: run_Nil b)
qed

end
